theory Spec2Isabelle
  imports Main "HOL-Library.AList"
begin

section \<open>Request data, Python errors and dictionary keys\<close>

text \<open>
  The body of a request (\<open>request.data\<close>) is parsed JSON. Numbers are modelled as
  integers. A JSON object is the list of its items, each key once; a key is looked up
  with \<open>map_of\<close>.
\<close>

datatype json =
    JNull
  | JBool bool
  | JInt int
  | JStr string
  | JList "json list"
  | JDict "(string \<times> json) list"

text \<open>The three exceptions that the batch views catch around their validation loop.\<close>

datatype py_error = KeyError | TypeError | ValidationError

text \<open>
  A value used as a member of \<open>seen_student_keys\<close> or as a key of \<open>results\<close> is hashed.
  Lists and dicts are unhashable (\<open>TypeError\<close>); \<open>True\<close> and \<open>False\<close> are equal to
  \<open>1\<close> and \<open>0\<close> and hash alike.
\<close>

datatype pykey = KNone | KInt int | KStr string

fun hash_key :: "json \<Rightarrow> py_error + pykey" where
  "hash_key JNull = Inr KNone"
| "hash_key (JBool b) = Inr (KInt (if b then 1 else 0))"
| "hash_key (JInt i) = Inr (KInt i)"
| "hash_key (JStr s) = Inr (KStr s)"
| "hash_key (JList xs) = Inl TypeError"
| "hash_key (JDict d) = Inl TypeError"

text \<open>
  \<open>enrollment['student_key']\<close>: a dict without the key raises \<open>KeyError\<close>, and every
  other JSON value raises \<open>TypeError\<close> when it is subscripted with a string.
\<close>

fun getitem :: "json \<Rightarrow> string \<Rightarrow> py_error + json" where
  "getitem (JDict d) k = (case map_of d k of None \<Rightarrow> Inl KeyError | Some v \<Rightarrow> Inr v)"
| "getitem JNull k = Inl TypeError"
| "getitem (JBool b) k = Inl TypeError"
| "getitem (JInt i) k = Inl TypeError"
| "getitem (JStr s) k = Inl TypeError"
| "getitem (JList xs) k = Inl TypeError"

text \<open>\<open>request_data.get(key)\<close> on the items of a dict: \<open>None\<close> when the key is absent.\<close>

definition dict_get :: "(string \<times> json) list \<Rightarrow> string \<Rightarrow> json" where
  "dict_get d k = (case map_of d k of None \<Rightarrow> JNull | Some v \<Rightarrow> v)"

text \<open>
  The student key of a batch entry, read and hashed: what
  \<open>student_key = enrollment['student_key']\<close> followed by
  \<open>student_key in seen_student_keys\<close> computes or raises.
\<close>

definition student_key_of :: "json \<Rightarrow> py_error + pykey" where
  "student_key_of enrollment =
     (case getitem enrollment ''student_key'' of
        Inl e \<Rightarrow> Inl e
      | Inr sk \<Rightarrow> hash_key sk)"

section \<open>Constants and responses\<close>

text \<open>
  Modelled from the spec: \<open>rest_api/v1/constants.py\<close> is not among the sources. The
  limit of 25 records and the status strings are those of the specification and of the
  docstrings of the views.
\<close>

definition MAX_ENROLLMENT_RECORDS :: nat where
  "MAX_ENROLLMENT_RECORDS = 25"

definition DUPLICATED :: json where "DUPLICATED = JStr ''duplicated''"
definition INVALID_STATUS :: json where "INVALID_STATUS = JStr ''invalid-status''"
definition CONFLICT :: json where "CONFLICT = JStr ''conflict''"
definition NOT_IN_PROGRAM :: json where "NOT_IN_PROGRAM = JStr ''not-in-program''"
definition NOT_FOUND :: json where "NOT_FOUND = JStr ''not-found''"

definition ProgramResponseStatuses_OK :: "json list" where
  "ProgramResponseStatuses_OK =
     [JStr ''enrolled'', JStr ''pending'', JStr ''canceled'', JStr ''suspended'']"

definition ProgramCourseResponseStatuses_OK :: "json list" where
  "ProgramCourseResponseStatuses_OK = [JStr ''active'', JStr ''inactive'']"

abbreviation HTTP_200_OK :: nat where "HTTP_200_OK \<equiv> 200"
abbreviation HTTP_201_CREATED :: nat where "HTTP_201_CREATED \<equiv> 201"
abbreviation HTTP_204_NO_CONTENT :: nat where "HTTP_204_NO_CONTENT \<equiv> 204"
abbreviation HTTP_207_MULTI_STATUS :: nat where "HTTP_207_MULTI_STATUS \<equiv> 207"
abbreviation HTTP_400_BAD_REQUEST :: nat where "HTTP_400_BAD_REQUEST \<equiv> 400"
abbreviation HTTP_413_REQUEST_ENTITY_TOO_LARGE :: nat where
  "HTTP_413_REQUEST_ENTITY_TOO_LARGE \<equiv> 413"
abbreviation HTTP_422_UNPROCESSABLE_ENTITY :: nat where
  "HTTP_422_UNPROCESSABLE_ENTITY \<equiv> 422"

text \<open>
  A response carries either a plain message or the per-record result map. The result
  map is a Python dict: an association list in insertion order, written with
  \<open>AList.update\<close> (a key that is present keeps its place, a new key goes last).
\<close>

type_synonym results = "(pykey \<times> json) list"

datatype body = Message string | Results results

record response =
  status_code :: nat
  data :: body

definition Response :: "body \<Rightarrow> nat \<Rightarrow> response" where
  "Response d s = \<lparr>status_code = s, data = d\<rparr>"

section \<open>Validation of a batch\<close>

text \<open>
  The request serializers are not among the sources; the views receive one as the
  argument \<open>serializer_class\<close>. What the views observe of it is the outcome of
  \<open>is_valid(raise_exception=True)\<close> together with \<open>has_invalid_status()\<close>.
\<close>

datatype serializer_result = Is_valid | Invalid_status | Invalid_other

type_synonym serializer = "json \<Rightarrow> serializer_result"

text \<open>
  What the check of one entry found. \<open>Rejected k s\<close>: the error status \<open>s\<close> is returned
  for the student key \<open>k\<close>. \<open>Accepted k d\<close>: \<open>None\<close> is returned; \<open>d\<close> are the items
  of the entry, which is a dict since its student key was read. An accepted entry is kept
  with the student key that the check read: the later readings
  \<open>enrollment['student_key']\<close> and \<open>request_data.get('student_key')\<close> of the same
  dict give that key.
\<close>

datatype checked = Rejected pykey json | Accepted pykey "(string \<times> json) list"

type_synonym enrollment_request = "pykey \<times> (string \<times> json) list"

definition validate_enrollment_request ::
  "json \<Rightarrow> pykey set \<Rightarrow> serializer \<Rightarrow> py_error + (checked \<times> pykey set)" where
  "validate_enrollment_request enrollment seen_student_keys serializer_class =
     (case enrollment of
        JDict d \<Rightarrow>
          (case student_key_of enrollment of
             Inl e \<Rightarrow> Inl e
           | Inr student_key \<Rightarrow>
               if student_key \<in> seen_student_keys
               then Inr (Rejected student_key DUPLICATED, seen_student_keys)
               else (case serializer_class enrollment of
                       Is_valid \<Rightarrow>
                         Inr (Accepted student_key d, insert student_key seen_student_keys)
                     | Invalid_status \<Rightarrow>
                         Inr (Rejected student_key INVALID_STATUS,
                              insert student_key seen_student_keys)
                     | Invalid_other \<Rightarrow> Inl ValidationError))
      | _ \<Rightarrow> Inl TypeError)"

text \<open>
  The first loop of \<open>create_or_modify_enrollments\<close>: every entry is checked in order;
  a rejected entry writes its error status into \<open>results\<close>, an accepted one is appended
  to \<open>enrollments\<close>. The first exception ends the loop.
\<close>

fun validation_loop ::
  "serializer \<Rightarrow> json list \<Rightarrow> pykey set \<Rightarrow> results \<Rightarrow> enrollment_request list
     \<Rightarrow> py_error + (results \<times> enrollment_request list)" where
  "validation_loop serializer_class [] seen results enrollments = Inr (results, enrollments)"
| "validation_loop serializer_class (enrollment_request # rest) seen results enrollments =
     (case validate_enrollment_request enrollment_request seen serializer_class of
        Inl e \<Rightarrow> Inl e
      | Inr (Rejected student_key error_status, seen') \<Rightarrow>
          validation_loop serializer_class rest seen'
            (AList.update student_key error_status results) enrollments
      | Inr (Accepted student_key d, seen') \<Rightarrow>
          validation_loop serializer_class rest seen' results
            (enrollments @ [(student_key, d)]))"

section \<open>Program enrollments\<close>

text \<open>
  Modelled from the spec: the \<open>ProgramEnrollment\<close> model and the ORM are not among the
  sources. The table holds the rows of the target program, unique on the external user
  key; a row has a nullable user, a curriculum and a status.
\<close>

record program_enrollment =
  user :: "nat option"
  curriculum_uuid :: json
  status :: json

type_synonym program_enrollments = "pykey \<rightharpoonup> program_enrollment"

text \<open>
  \<open>get_user_by_program_id\<close> is not among the sources: it is an argument. The view
  distinguishes a returned user (or \<open>None\<close>) from \<open>ProviderDoesNotExistException\<close>,
  the one exception of the helper that it catches.
\<close>

datatype user_lookup = Returns "nat option" | Raises_ProviderDoesNotExistException

type_synonym operation =
  "enrollment_request \<Rightarrow> program_enrollment option \<Rightarrow> program_enrollments
     \<Rightarrow> json \<times> program_enrollments"

definition create_program_enrollment :: "(pykey \<Rightarrow> user_lookup) \<Rightarrow> operation" where
  "create_program_enrollment get_user_by_program_id request_data program_enrollment db =
     (case program_enrollment of
        Some _ \<Rightarrow> (CONFLICT, db)
      | None \<Rightarrow>
          (let student_key = fst request_data;
               usr = (case get_user_by_program_id student_key of
                        Returns u \<Rightarrow> u
                      | Raises_ProviderDoesNotExistException \<Rightarrow> None);
               enrollment = \<lparr>user = usr,
                              curriculum_uuid = dict_get (snd request_data) ''curriculum_uuid'',
                              status = dict_get (snd request_data) ''status''\<rparr>
           in (status enrollment, db(student_key \<mapsto> enrollment))))"

definition modify_program_enrollment :: operation where
  "modify_program_enrollment request_data program_enrollment db =
     (case program_enrollment of
        None \<Rightarrow> (NOT_IN_PROGRAM, db)
      | Some row \<Rightarrow>
          (let row' = row\<lparr>status := dict_get (snd request_data) ''status''\<rparr>
           in (status row', db(fst request_data \<mapsto> row'))))"

definition create_or_modify_program_enrollment :: "(pykey \<Rightarrow> user_lookup) \<Rightarrow> operation" where
  "create_or_modify_program_enrollment get_user_by_program_id request_data program_enrollment db =
     (case program_enrollment of
        Some _ \<Rightarrow> modify_program_enrollment request_data program_enrollment db
      | None \<Rightarrow>
          create_program_enrollment get_user_by_program_id request_data program_enrollment db)"

text \<open>
  The rows of the program for the student keys of the accepted entries, as a dict from
  external user key to row.
\<close>

definition get_existing_program_enrollments ::
  "program_enrollments \<Rightarrow> enrollment_request list \<Rightarrow> program_enrollments" where
  "get_existing_program_enrollments db student_data = db |` set (map fst student_data)"

definition get_created_or_updated_response :: "results \<Rightarrow> nat \<Rightarrow> response" where
  "get_created_or_updated_response response_data default_status =
     (let good_count = length (filter (\<lambda>v. v \<in> set ProgramResponseStatuses_OK)
                                 (map snd response_data))
      in if good_count = 0 then Response (Results response_data) HTTP_422_UNPROCESSABLE_ENTITY
         else if good_count \<noteq> length response_data
           then Response (Results response_data) HTTP_207_MULTI_STATUS
         else Response (Results response_data) default_status)"

text \<open>
  The second loop of \<open>create_or_modify_enrollments\<close>: an accepted entry whose key is
  marked \<open>duplicated\<close> is skipped; every other one is handed to the operation with the
  row found for its key.
\<close>

fun apply_loop ::
  "operation \<Rightarrow> program_enrollments \<Rightarrow> enrollment_request list \<Rightarrow> results
     \<Rightarrow> program_enrollments \<Rightarrow> results \<times> program_enrollments" where
  "apply_loop operation existing [] results db = (results, db)"
| "apply_loop operation existing (enrollment # rest) results db =
     (let student_key = fst enrollment in
      if map_of results student_key = Some DUPLICATED
      then apply_loop operation existing rest results db
      else (case operation enrollment (existing student_key) db of
              (st, db') \<Rightarrow>
                apply_loop operation existing rest (AList.update student_key st results) db'))"

definition create_or_modify_enrollments ::
  "json \<Rightarrow> serializer \<Rightarrow> operation \<Rightarrow> nat \<Rightarrow> program_enrollments
     \<Rightarrow> response \<times> program_enrollments" where
  "create_or_modify_enrollments request_data serializer_class operation success_status db =
     (case request_data of
        JList entries \<Rightarrow>
          if length entries > MAX_ENROLLMENT_RECORDS
          then (Response (Message ''enrollment limit 25'') HTTP_413_REQUEST_ENTITY_TOO_LARGE, db)
          else (case validation_loop serializer_class entries {} [] [] of
                  Inl e \<Rightarrow>
                    (Response (Message ''invalid enrollment record'')
                       HTTP_422_UNPROCESSABLE_ENTITY, db)
                | Inr (results, enrollments) \<Rightarrow>
                    (case apply_loop operation
                            (get_existing_program_enrollments db enrollments)
                            enrollments results db of
                       (results', db') \<Rightarrow>
                         (get_created_or_updated_response results' success_status, db')))
      | _ \<Rightarrow> (Response (Message ''invalid enrollment record'') HTTP_422_UNPROCESSABLE_ENTITY, db))"

text \<open>The three writing methods of \<open>ProgramEnrollmentsView\<close>.\<close>

datatype http_method = POST | PATCH | PUT

definition program_operation :: "(pykey \<Rightarrow> user_lookup) \<Rightarrow> http_method \<Rightarrow> operation" where
  "program_operation get_user_by_program_id m =
     (case m of
        POST \<Rightarrow> create_program_enrollment get_user_by_program_id
      | PATCH \<Rightarrow> modify_program_enrollment
      | PUT \<Rightarrow> create_or_modify_program_enrollment get_user_by_program_id)"

definition program_success_status :: "http_method \<Rightarrow> nat" where
  "program_success_status m =
     (case m of POST \<Rightarrow> HTTP_201_CREATED | PATCH \<Rightarrow> HTTP_200_OK | PUT \<Rightarrow> HTTP_200_OK)"

text \<open>
  \<open>post\<close>, \<open>patch\<close> and \<open>put\<close> of \<open>ProgramEnrollmentsView\<close>. The create and the modify
  request serializers are arguments, since their code is not among the sources.
\<close>

definition program_enrollments_view ::
  "serializer \<Rightarrow> serializer \<Rightarrow> (pykey \<Rightarrow> user_lookup) \<Rightarrow> http_method \<Rightarrow> json
     \<Rightarrow> program_enrollments \<Rightarrow> response \<times> program_enrollments" where
  "program_enrollments_view create_serializer modify_serializer get_user_by_program_id m
       request_data db =
     create_or_modify_enrollments request_data
       (case m of POST \<Rightarrow> create_serializer | PATCH \<Rightarrow> modify_serializer
          | PUT \<Rightarrow> create_serializer)
       (program_operation get_user_by_program_id m)
       (program_success_status m) db"

section \<open>Program course enrollments\<close>

text \<open>
  Modelled from the spec: the \<open>ProgramCourseEnrollment\<close> model is not among the
  sources. The table holds the course enrollments of the target course run, one for a
  program enrollment at most, under the student key of that program enrollment; a row
  has a status and a nullable link to the course registration.
\<close>

record program_course_enrollment =
  course_status :: json
  course_enrollment :: "nat option"

type_synonym program_course_enrollments = "pykey \<rightharpoonup> program_course_enrollment"

text \<open>
  \<open>ProgramCourseEnrollment.create_program_course_enrollment\<close> and \<open>change_status\<close>
  are not among the sources: they are arguments. The first yields the row created for a
  program enrollment and a status, and the status returned; the second the row as
  changed and the status returned.
\<close>

type_synonym create_helper =
  "program_enrollment \<Rightarrow> json \<Rightarrow> program_course_enrollment \<times> json"

type_synonym change_helper =
  "program_course_enrollment \<Rightarrow> json \<Rightarrow> program_course_enrollment \<times> json"

text \<open>
  An operation of the course view returns the status of the record and the course
  enrollment of the learner as it leaves it, or raises: \<open>enrollment_request['status']\<close>
  is a \<open>KeyError\<close> when the entry has no status.
\<close>

type_synonym course_operation =
  "enrollment_request \<Rightarrow> program_enrollment \<Rightarrow> program_course_enrollment option
     \<Rightarrow> py_error + (json \<times> program_course_enrollment option)"

definition enroll_learner_in_course :: "create_helper \<Rightarrow> course_operation" where
  "enroll_learner_in_course create_program_course_enrollment enrollment_request
       program_enrollment program_course_enrollment =
     (case program_course_enrollment of
        Some row \<Rightarrow> Inr (CONFLICT, Some row)
      | None \<Rightarrow>
          (case getitem (JDict (snd enrollment_request)) ''status'' of
             Inl e \<Rightarrow> Inl e
           | Inr st \<Rightarrow>
               (case create_program_course_enrollment program_enrollment st of
                  (row, returned) \<Rightarrow> Inr (returned, Some row))))"

definition modify_learner_enrollment_status :: "change_helper \<Rightarrow> course_operation" where
  "modify_learner_enrollment_status change_status enrollment_request
       program_enrollment program_course_enrollment =
     (case program_course_enrollment of
        None \<Rightarrow> Inr (NOT_FOUND, None)
      | Some row \<Rightarrow>
          (case getitem (JDict (snd enrollment_request)) ''status'' of
             Inl e \<Rightarrow> Inl e
           | Inr st \<Rightarrow>
               (case change_status row st of
                  (row', returned) \<Rightarrow> Inr (returned, Some row'))))"

definition create_or_update_learner_enrollment ::
  "create_helper \<Rightarrow> change_helper \<Rightarrow> course_operation" where
  "create_or_update_learner_enrollment create_program_course_enrollment change_status
       enrollment_request program_enrollment program_course_enrollment =
     (case program_course_enrollment of
        None \<Rightarrow>
          (case getitem (JDict (snd enrollment_request)) ''status'' of
             Inl e \<Rightarrow> Inl e
           | Inr st \<Rightarrow>
               (case create_program_course_enrollment program_enrollment st of
                  (row, returned) \<Rightarrow> Inr (returned, Some row)))
      | Some row \<Rightarrow>
          (case getitem (JDict (snd enrollment_request)) ''status'' of
             Inl e \<Rightarrow> Inl e
           | Inr st \<Rightarrow>
               (case change_status row st of
                  (row', returned) \<Rightarrow> Inr (returned, Some row'))))"

definition check_enrollment_request ::
  "serializer \<Rightarrow> json \<Rightarrow> pykey set \<Rightarrow> py_error + (checked \<times> pykey set)" where
  "check_enrollment_request ProgramCourseEnrollmentRequestSerializer enrollment
       seen_student_keys =
     (case enrollment of
        JDict d \<Rightarrow>
          (case student_key_of enrollment of
             Inl e \<Rightarrow> Inl e
           | Inr student_key \<Rightarrow>
               if student_key \<in> seen_student_keys
               then Inr (Rejected student_key DUPLICATED, seen_student_keys)
               else (case ProgramCourseEnrollmentRequestSerializer enrollment of
                       Is_valid \<Rightarrow>
                         Inr (Accepted student_key d, insert student_key seen_student_keys)
                     | Invalid_status \<Rightarrow>
                         Inr (Rejected student_key INVALID_STATUS,
                              insert student_key seen_student_keys)
                     | Invalid_other \<Rightarrow> Inl ValidationError))
      | _ \<Rightarrow> Inl TypeError)"

fun course_validation_loop ::
  "serializer \<Rightarrow> json list \<Rightarrow> pykey set \<Rightarrow> results \<Rightarrow> enrollment_request list
     \<Rightarrow> py_error + (results \<times> enrollment_request list)" where
  "course_validation_loop ser [] seen results enrollments = Inr (results, enrollments)"
| "course_validation_loop ser (enrollment_request # rest) seen results enrollments =
     (case check_enrollment_request ser enrollment_request seen of
        Inl e \<Rightarrow> Inl e
      | Inr (Rejected student_key error_status, seen') \<Rightarrow>
          course_validation_loop ser rest seen'
            (AList.update student_key error_status results) enrollments
      | Inr (Accepted student_key d, seen') \<Rightarrow>
          course_validation_loop ser rest seen' results
            (enrollments @ [(student_key, d)]))"

text \<open>
  The second loop of the course view. A key without a program enrollment is answered
  \<open>not-in-program\<close> and the operation is not called. An exception of the operation
  is not caught: the loop ends with it, and the table is as the records before left it.
\<close>

fun course_apply_loop ::
  "course_operation \<Rightarrow> program_enrollments \<Rightarrow> enrollment_request list \<Rightarrow> results
     \<Rightarrow> program_course_enrollments \<Rightarrow> (py_error + results) \<times> program_course_enrollments" where
  "course_apply_loop operation existing [] results pces = (Inr results, pces)"
| "course_apply_loop operation existing (enrollment # rest) results pces =
     (let student_key = fst enrollment in
      if map_of results student_key = Some DUPLICATED
      then course_apply_loop operation existing rest results pces
      else (case existing student_key of
              None \<Rightarrow>
                course_apply_loop operation existing rest
                  (AList.update student_key NOT_IN_PROGRAM results) pces
            | Some program_enrollment \<Rightarrow>
                (case operation enrollment program_enrollment (pces student_key) of
                   Inl e \<Rightarrow> (Inl e, pces)
                 | Inr (st, row) \<Rightarrow>
                     course_apply_loop operation existing rest
                       (AList.update student_key st results) (pces(student_key := row)))))"

definition course_response :: "results \<Rightarrow> response" where
  "course_response results =
     (let good_count = length (filter (\<lambda>(_, v). v \<in> set ProgramCourseResponseStatuses_OK)
                                 results)
      in if good_count = 0 then Response (Results results) HTTP_422_UNPROCESSABLE_ENTITY
         else if good_count \<noteq> length results
           then Response (Results results) HTTP_207_MULTI_STATUS
         else Response (Results results) HTTP_200_OK)"

text \<open>
  \<open>create_or_modify_enrollments\<close> of \<open>ProgramCourseEnrollmentsView\<close>. The outcome is
  a response, or the exception that an operation raised.
\<close>

definition course_create_or_modify_enrollments ::
  "json \<Rightarrow> serializer \<Rightarrow> course_operation \<Rightarrow> program_enrollments
     \<Rightarrow> program_course_enrollments \<Rightarrow> (py_error + response) \<times> program_course_enrollments" where
  "course_create_or_modify_enrollments request_data ser operation db pces =
     (case request_data of
        JList entries \<Rightarrow>
          if length entries > MAX_ENROLLMENT_RECORDS
          then (Inr (Response (Message ''enrollment limit 25'')
                       HTTP_413_REQUEST_ENTITY_TOO_LARGE), pces)
          else (case course_validation_loop ser entries {} [] [] of
                  Inl e \<Rightarrow>
                    (Inr (Response (Message ''invalid enrollment record'')
                            HTTP_400_BAD_REQUEST), pces)
                | Inr (results, enrollments) \<Rightarrow>
                    (case course_apply_loop operation
                            (get_existing_program_enrollments db enrollments)
                            enrollments results pces of
                       (Inl e, pces') \<Rightarrow> (Inl e, pces')
                     | (Inr results', pces') \<Rightarrow> (Inr (course_response results'), pces')))
      | _ \<Rightarrow> (Inr (Response (Message ''invalid enrollment record'') HTTP_400_BAD_REQUEST),
               pces))"

definition course_operation_of ::
  "create_helper \<Rightarrow> change_helper \<Rightarrow> http_method \<Rightarrow> course_operation" where
  "course_operation_of create_program_course_enrollment change_status m =
     (case m of
        POST \<Rightarrow> enroll_learner_in_course create_program_course_enrollment
      | PATCH \<Rightarrow> modify_learner_enrollment_status change_status
      | PUT \<Rightarrow> create_or_update_learner_enrollment create_program_course_enrollment
                 change_status)"

text \<open>\<open>post\<close>, \<open>patch\<close> and \<open>put\<close> of \<open>ProgramCourseEnrollmentsView\<close>.\<close>

definition program_course_enrollments_view ::
  "serializer \<Rightarrow> create_helper \<Rightarrow> change_helper \<Rightarrow> http_method \<Rightarrow> json
     \<Rightarrow> program_enrollments \<Rightarrow> program_course_enrollments
     \<Rightarrow> (py_error + response) \<times> program_course_enrollments" where
  "program_course_enrollments_view ser create_program_course_enrollment change_status m
       request_data db pces =
     course_create_or_modify_enrollments request_data ser
       (course_operation_of create_program_course_enrollment change_status m) db pces"

section \<open>Course grades\<close>

text \<open>
  A grade result is a loaded grade or an error, each with its enrollment. The grade
  (letter grade, percent, passed) and the exception are opaque to the view.
\<close>

datatype ('e, 'g, 'x) grade_result =
    ProgramCourseGradeOk 'e 'g
  | ProgramCourseGradeError 'e "'x option"

fun is_error :: "('e, 'g, 'x) grade_result \<Rightarrow> bool" where
  "is_error (ProgramCourseGradeOk enrollment grade) = False"
| "is_error (ProgramCourseGradeError enrollment exception) = True"

fun result_enrollment :: "('e, 'g, 'x) grade_result \<Rightarrow> 'e" where
  "result_enrollment (ProgramCourseGradeOk enrollment grade) = enrollment"
| "result_enrollment (ProgramCourseGradeError enrollment exception) = enrollment"

text \<open>
  Modelled from the spec: \<open>CourseGradeFactory.iter\<close> is not among the sources. It loads
  the grade of each user in turn and yields, per user and in the order of the users, the
  grade or the exception that loading it raised.
\<close>

definition CourseGradeFactory_iter ::
  "('u \<Rightarrow> 'x + 'g) \<Rightarrow> 'u list \<Rightarrow> ('u \<times> 'g option \<times> 'x option) list" where
  "CourseGradeFactory_iter read users =
     map (\<lambda>u. case read u of
                 Inl exception \<Rightarrow> (u, None, Some exception)
               | Inr course_grade \<Rightarrow> (u, Some course_grade, None)) users"

definition iter_grades ::
  "('u list \<Rightarrow> ('u \<times> 'g option \<times> 'x option) list) \<Rightarrow> 'u list
     \<Rightarrow> ('g option \<times> 'x option) list" where
  "iter_grades grades_iter users =
     map (\<lambda>(usr, course_grade, exception). (course_grade, exception)) (grades_iter users)"

definition load_grade_results ::
  "('u list \<Rightarrow> ('u \<times> 'g option \<times> 'x option) list) \<Rightarrow> ('e \<Rightarrow> 'u) \<Rightarrow> 'e list
     \<Rightarrow> ('e, 'g, 'x) grade_result list" where
  "load_grade_results grades_iter enrollment_user paginated_enrollments =
     (if paginated_enrollments = [] then []
      else
        (let pairs = map (\<lambda>enrollment. (enrollment, enrollment_user enrollment))
                       paginated_enrollments;
             enrollments = map fst pairs;
             users = map snd pairs;
             enrollment_grade_pairs = zip enrollments (iter_grades grades_iter users)
         in map (\<lambda>(enrollment, (grade, exception)).
                   case grade of
                     Some g \<Rightarrow> ProgramCourseGradeOk enrollment g
                   | None \<Rightarrow> ProgramCourseGradeError enrollment exception)
                enrollment_grade_pairs))"

definition calc_response_code :: "('e, 'g, 'x) grade_result list \<Rightarrow> nat" where
  "calc_response_code grade_results =
     (if grade_results = [] then HTTP_204_NO_CONTENT
      else if list_all is_error grade_results then HTTP_422_UNPROCESSABLE_ENTITY
      else if list_ex is_error grade_results then HTTP_207_MULTI_STATUS
      else HTTP_200_OK)"

section \<open>Request serializers and sample records\<close>

text \<open>
  Modelled from the spec: \<open>rest_api/v1/serializers.py\<close> is not among the sources. A
  record is \<open>{student_key, status, curriculum_uuid?}\<close>; a status outside the allowed
  set is an invalid status, and any other fault of the record is another validation
  error. The create request requires the curriculum, the modify request and the course
  request do not.
\<close>

definition ProgramEnrollmentStatuses :: "json list" where
  "ProgramEnrollmentStatuses =
     [JStr ''enrolled'', JStr ''pending'', JStr ''canceled'', JStr ''suspended'']"

definition ProgramCourseEnrollmentStatuses :: "json list" where
  "ProgramCourseEnrollmentStatuses = [JStr ''active'', JStr ''inactive'']"

fun is_str :: "json option \<Rightarrow> bool" where
  "is_str (Some (JStr s)) = True"
| "is_str _ = False"

definition request_serializer :: "json list \<Rightarrow> bool \<Rightarrow> serializer" where
  "request_serializer choices with_curriculum enrollment =
     (case enrollment of
        JDict d \<Rightarrow>
          (case map_of d ''status'' of
             None \<Rightarrow> Invalid_other
           | Some st \<Rightarrow>
               if st \<notin> set choices then Invalid_status
               else if is_str (map_of d ''student_key'') \<and>
                       (\<not> with_curriculum \<or> is_str (map_of d ''curriculum_uuid''))
                 then Is_valid
               else Invalid_other)
      | _ \<Rightarrow> Invalid_other)"

definition ProgramEnrollmentCreateRequestSerializer :: serializer where
  "ProgramEnrollmentCreateRequestSerializer =
     request_serializer ProgramEnrollmentStatuses True"

definition ProgramEnrollmentModifyRequestSerializer :: serializer where
  "ProgramEnrollmentModifyRequestSerializer =
     request_serializer ProgramEnrollmentStatuses False"

definition ProgramCourseEnrollmentRequestSerializer :: serializer where
  "ProgramCourseEnrollmentRequestSerializer =
     request_serializer ProgramCourseEnrollmentStatuses False"

text \<open>A record of a request body, as in the examples of the docstrings.\<close>

definition learner :: "string \<Rightarrow> string \<Rightarrow> json" where
  "learner student_key st =
     JDict [(''student_key'', JStr student_key), (''status'', JStr st),
            (''curriculum_uuid'', JStr ''2d7de549-b09e-4e50-835d-4c5c5080c566'')]"

text \<open>
  Sample helpers of the course view: the created row carries the requested status and
  no course registration; a changed row carries the new status. Both return the status.
\<close>

definition sample_create :: create_helper where
  "sample_create program_enrollment st = (\<lparr>course_status = st, course_enrollment = None\<rparr>, st)"

definition sample_change :: change_helper where
  "sample_change row st = (row\<lparr>course_status := st\<rparr>, st)"

text \<open>A row of a learner who is enrolled in the program and has a user.\<close>

definition enrolled_row :: program_enrollment where
  "enrolled_row = \<lparr>user = Some 7, curriculum_uuid = JStr ''c1'', status = JStr ''enrolled''\<rparr>"

section \<open>Operations write the row of their own learner\<close>

definition writes_own_row :: "operation \<Rightarrow> bool" where
  "writes_own_row operation \<longleftrightarrow>
     (\<forall>request_data row db k. k \<noteq> fst request_data \<longrightarrow>
        snd (operation request_data row db) k = db k)"

section \<open>The validation loop\<close>

lemma validate_enrollment_request_Inr:
  assumes "validate_enrollment_request e seen ser = Inr (c, seen')"
  shows "\<exists>k d. e = JDict d \<and> student_key_of e = Inr k \<and>
           ((k \<in> seen \<and> c = Rejected k DUPLICATED \<and> seen' = seen) \<or>
            (k \<notin> seen \<and> seen' = insert k seen \<and>
               ((ser e = Is_valid \<and> c = Accepted k d) \<or>
                (ser e = Invalid_status \<and> c = Rejected k INVALID_STATUS))))"
  using assms
  by (auto simp: validate_enrollment_request_def
           split: json.splits sum.splits if_splits serializer_result.splits)

lemma check_enrollment_request_eq:
  "check_enrollment_request ser e seen = validate_enrollment_request e seen ser"
  by (simp add: check_enrollment_request_def validate_enrollment_request_def)

lemma course_validation_loop_eq:
  "course_validation_loop ser xs seen res enr = validation_loop ser xs seen res enr"
  by (induction xs arbitrary: seen res enr)
     (simp_all add: check_enrollment_request_eq split: sum.splits prod.splits checked.splits)

lemma validation_loop_raises:
  "\<exists>x\<in>set xs. \<exists>err. student_key_of x = Inl err \<Longrightarrow>
     \<exists>err. validation_loop ser xs seen res enr = Inl err"
proof (induction xs arbitrary: seen res enr)
  case Nil
  then show ?case by simp
next
  case (Cons x xs)
  show ?case
  proof (cases "validate_enrollment_request x seen ser")
    case (Inl e)
    then show ?thesis by simp
  next
    case (Inr p)
    obtain c seen' where p: "p = (c, seen')" by (cases p)
    from validate_enrollment_request_Inr[OF Inr[unfolded p]]
    obtain k where "student_key_of x = Inr k" by blast
    with Cons.prems have "\<exists>x\<in>set xs. \<exists>err. student_key_of x = Inl err" by auto
    from Cons.IH[OF this] show ?thesis using Inr p
      by (cases c) auto
  qed
qed


lemma validation_loop_Cons_Inr:
  assumes "validation_loop ser (x # xs) seen res enr = Inr r"
  shows "\<exists>k d. x = JDict d \<and> student_key_of x = Inr k \<and>
     ((k \<in> seen \<and> validation_loop ser xs seen (AList.update k DUPLICATED res) enr = Inr r) \<or>
      (k \<notin> seen \<and> ser x = Is_valid \<and>
         validation_loop ser xs (insert k seen) res (enr @ [(k, d)]) = Inr r) \<or>
      (k \<notin> seen \<and> ser x = Invalid_status \<and>
         validation_loop ser xs (insert k seen) (AList.update k INVALID_STATUS res) enr = Inr r))"
proof (cases "validate_enrollment_request x seen ser")
  case (Inl e)
  with assms show ?thesis by simp
next
  case (Inr p)
  obtain c seen' where p: "p = (c, seen')" by (cases p)
  from validate_enrollment_request_Inr[OF Inr[unfolded p]] assms Inr p
  show ?thesis by (cases c) auto
qed

lemma validation_loop_keys:
  "validation_loop ser xs seen res enr = Inr (res', enr') \<Longrightarrow>
     fst ` set res' \<union> fst ` set enr' =
       fst ` set res \<union> fst ` set enr \<union> {k. \<exists>x\<in>set xs. student_key_of x = Inr k}"
proof (induction xs arbitrary: seen res enr)
  case Nil
  then show ?case by simp
next
  case (Cons x xs)
  from validation_loop_Cons_Inr[OF Cons.prems] obtain k d where
    k: "student_key_of x = Inr k" and
    c: "(validation_loop ser xs seen (AList.update k DUPLICATED res) enr = Inr (res', enr')) \<or>
        (validation_loop ser xs (insert k seen) res (enr @ [(k, d)]) = Inr (res', enr')) \<or>
        (validation_loop ser xs (insert k seen) (AList.update k INVALID_STATUS res) enr
           = Inr (res', enr'))"
    by blast
  have s: "{k'. \<exists>y\<in>set (x # xs). student_key_of y = Inr k'} =
           insert k {k'. \<exists>y\<in>set xs. student_key_of y = Inr k'}"
    using k by auto
  from c show ?case
  proof (elim disjE)
    assume "validation_loop ser xs seen (AList.update k DUPLICATED res) enr = Inr (res', enr')"
    from Cons.IH[OF this] show ?thesis unfolding s
      by (auto simp: AList.dom_update)
  next
    assume "validation_loop ser xs (insert k seen) res (enr @ [(k, d)]) = Inr (res', enr')"
    from Cons.IH[OF this] show ?thesis unfolding s by auto
  next
    assume "validation_loop ser xs (insert k seen) (AList.update k INVALID_STATUS res) enr
              = Inr (res', enr')"
    from Cons.IH[OF this] show ?thesis unfolding s
      by (auto simp: AList.dom_update)
  qed
qed

lemma validation_loop_Cons_cases [consumes 1, case_names dup valid invalid]:
  assumes "validation_loop ser (x # xs) seen res enr = Inr r"
  obtains
    k d where "x = JDict d" "student_key_of x = Inr k" "k \<in> seen"
      "validation_loop ser xs seen (AList.update k DUPLICATED res) enr = Inr r"
  | k d where "x = JDict d" "student_key_of x = Inr k" "k \<notin> seen" "ser x = Is_valid"
      "validation_loop ser xs (insert k seen) res (enr @ [(k, d)]) = Inr r"
  | k d where "x = JDict d" "student_key_of x = Inr k" "k \<notin> seen" "ser x = Invalid_status"
      "validation_loop ser xs (insert k seen) (AList.update k INVALID_STATUS res) enr = Inr r"
  using validation_loop_Cons_Inr[OF assms] by blast

lemma validation_loop_distinct_results:
  "validation_loop ser xs seen res enr = Inr (res', enr') \<Longrightarrow> distinct (map fst res) \<Longrightarrow>
     distinct (map fst res')"
proof (induction xs arbitrary: seen res enr)
  case Nil
  then show ?case by simp
next
  case (Cons x xs)
  from Cons.prems(1) show ?case
  proof (cases rule: validation_loop_Cons_cases)
    case (dup k d)
    have "distinct (map fst (AList.update k DUPLICATED res))"
      using Cons.prems(2) by (simp add: AList.distinct_update)
    from Cons.IH[OF dup(4) this] show ?thesis .
  next
    case (valid k d)
    from Cons.IH[OF valid(5) Cons.prems(2)] show ?thesis .
  next
    case (invalid k d)
    have "distinct (map fst (AList.update k INVALID_STATUS res))"
      using Cons.prems(2) by (simp add: AList.distinct_update)
    from Cons.IH[OF invalid(5) this] show ?thesis .
  qed
qed

lemma validation_loop_distinct_enrollments:
  "validation_loop ser xs seen res enr = Inr (res', enr') \<Longrightarrow> fst ` set enr \<subseteq> seen \<Longrightarrow>
     distinct (map fst enr) \<Longrightarrow> distinct (map fst enr')"
proof (induction xs arbitrary: seen res enr)
  case Nil
  then show ?case by simp
next
  case (Cons x xs)
  from Cons.prems(1) show ?case
  proof (cases rule: validation_loop_Cons_cases)
    case (dup k d)
    from Cons.IH[OF dup(4) Cons.prems(2,3)] show ?thesis .
  next
    case (valid k d)
    have "fst ` set (enr @ [(k, d)]) \<subseteq> insert k seen" using Cons.prems(2) by auto
    moreover have "distinct (map fst (enr @ [(k, d)]))"
      using Cons.prems(2,3) valid(3) by auto
    ultimately show ?thesis using Cons.IH[OF valid(5)] by blast
  next
    case (invalid k d)
    have "fst ` set enr \<subseteq> insert k seen" using Cons.prems(2) by auto
    from Cons.IH[OF invalid(5) this Cons.prems(3)] show ?thesis .
  qed
qed

lemma validation_loop_seen_duplicated:
  "validation_loop ser xs seen res enr = Inr (res', enr') \<Longrightarrow> k \<in> seen \<Longrightarrow>
     map_of res k = Some DUPLICATED \<or> (\<exists>x\<in>set xs. student_key_of x = Inr k) \<Longrightarrow>
     map_of res' k = Some DUPLICATED"
proof (induction xs arbitrary: seen res enr)
  case Nil
  then show ?case by simp
next
  case (Cons x xs)
  from Cons.prems(1) show ?case
  proof (cases rule: validation_loop_Cons_cases)
    case (dup k' d)
    have "map_of (AList.update k' DUPLICATED res) k = Some DUPLICATED \<or>
          (\<exists>x\<in>set xs. student_key_of x = Inr k)"
      using Cons.prems(3) dup(2) by (auto simp: AList.update_conv')
    from Cons.IH[OF dup(4) Cons.prems(2) this] show ?thesis .
  next
    case (valid k' d)
    have ne: "k' \<noteq> k" using valid(3) Cons.prems(2) by auto
    have "map_of res k = Some DUPLICATED \<or> (\<exists>x\<in>set xs. student_key_of x = Inr k)"
      using Cons.prems(3) valid(2) ne by auto
    moreover have "k \<in> insert k' seen" using Cons.prems(2) by simp
    ultimately show ?thesis using Cons.IH[OF valid(5)] by blast
  next
    case (invalid k' d)
    have ne: "k' \<noteq> k" using invalid(3) Cons.prems(2) by auto
    have "map_of (AList.update k' INVALID_STATUS res) k = Some DUPLICATED \<or>
          (\<exists>x\<in>set xs. student_key_of x = Inr k)"
      using Cons.prems(3) invalid(2) ne by (auto simp: AList.update_conv')
    moreover have "k \<in> insert k' seen" using Cons.prems(2) by simp
    ultimately show ?thesis using Cons.IH[OF invalid(5)] by blast
  qed
qed

lemma validation_loop_repeated:
  "validation_loop ser xs seen res enr = Inr (res', enr') \<Longrightarrow>
     1 < length (filter (\<lambda>x. student_key_of x = Inr k) xs) \<Longrightarrow>
     map_of res' k = Some DUPLICATED"
proof (induction xs arbitrary: seen res enr)
  case Nil
  then show ?case by simp
next
  case (Cons x xs)
  show ?case
  proof (cases "student_key_of x = Inr k")
    case False
    then have more: "1 < length (filter (\<lambda>x. student_key_of x = Inr k) xs)"
      using Cons.prems(2) by simp
    from Cons.prems(1) show ?thesis
    proof (cases rule: validation_loop_Cons_cases)
      case (dup k' d)
      from Cons.IH[OF dup(4) more] show ?thesis .
    next
      case (valid k' d)
      from Cons.IH[OF valid(5) more] show ?thesis .
    next
      case (invalid k' d)
      from Cons.IH[OF invalid(5) more] show ?thesis .
    qed
  next
    case True
    then have "0 < length (filter (\<lambda>x. student_key_of x = Inr k) xs)"
      using Cons.prems(2) by simp
    then have ex: "\<exists>y\<in>set xs. student_key_of y = Inr k"
      by (simp add: filter_empty_conv)
    from Cons.prems(1) show ?thesis
    proof (cases rule: validation_loop_Cons_cases)
      case (dup k' d)
      with True have "k \<in> seen" by simp
      from validation_loop_seen_duplicated[OF dup(4) this] ex show ?thesis by blast
    next
      case (valid k' d)
      with True have "k' = k" by simp
      then have "k \<in> insert k' seen" by simp
      from validation_loop_seen_duplicated[OF valid(5) this] ex show ?thesis by blast
    next
      case (invalid k' d)
      with True have "k' = k" by simp
      then have "k \<in> insert k' seen" by simp
      from validation_loop_seen_duplicated[OF invalid(5) this] ex show ?thesis by blast
    qed
  qed
qed

lemma validation_loop_absent:
  "validation_loop ser xs seen res enr = Inr (res', enr') \<Longrightarrow>
     \<forall>x\<in>set xs. student_key_of x \<noteq> Inr k \<Longrightarrow>
     map_of res' k = map_of res k \<and> (\<forall>d. (k, d) \<in> set enr' \<longleftrightarrow> (k, d) \<in> set enr)"
proof (induction xs arbitrary: seen res enr)
  case Nil
  then show ?case by simp
next
  case (Cons x xs)
  have rest: "\<forall>x\<in>set xs. student_key_of x \<noteq> Inr k" using Cons.prems(2) by simp
  from Cons.prems(1) show ?case
  proof (cases rule: validation_loop_Cons_cases)
    case (dup k' d)
    then have "k' \<noteq> k" using Cons.prems(2) by auto
    with Cons.IH[OF dup(4) rest] show ?thesis by (simp add: AList.update_conv')
  next
    case (valid k' d)
    then have "k' \<noteq> k" using Cons.prems(2) by auto
    with Cons.IH[OF valid(5) rest] show ?thesis by simp
  next
    case (invalid k' d)
    then have "k' \<noteq> k" using Cons.prems(2) by auto
    with Cons.IH[OF invalid(5) rest] show ?thesis by (simp add: AList.update_conv')
  qed
qed

lemma validation_loop_once_valid:
  "validation_loop ser xs seen res enr = Inr (res', enr') \<Longrightarrow> k \<notin> seen \<Longrightarrow>
     length (filter (\<lambda>x. student_key_of x = Inr k) xs) = 1 \<Longrightarrow>
     \<forall>x\<in>set xs. student_key_of x = Inr k \<longrightarrow> ser x = Is_valid \<Longrightarrow>
     map_of res' k = map_of res k \<and>
     (\<exists>d. JDict d \<in> set xs \<and> student_key_of (JDict d) = Inr k \<and> (k, d) \<in> set enr')"
proof (induction xs arbitrary: seen res enr)
  case Nil
  then show ?case by simp
next
  case (Cons x xs)
  show ?case
  proof (cases "student_key_of x = Inr k")
    case True
    then have "filter (\<lambda>x. student_key_of x = Inr k) xs = []"
      using Cons.prems(3) by simp
    then have rest: "\<forall>y\<in>set xs. student_key_of y \<noteq> Inr k"
      by (simp add: filter_empty_conv)
    have v: "ser x = Is_valid" using True Cons.prems(4) by simp
    from Cons.prems(1) show ?thesis
    proof (cases rule: validation_loop_Cons_cases)
      case (dup k' d)
      with True Cons.prems(2) show ?thesis by simp
    next
      case (valid k' d)
      with True have "k' = k" by simp
      with validation_loop_absent[OF valid(5) rest] valid(1) True show ?thesis by auto
    next
      case (invalid k' d)
      with v show ?thesis by simp
    qed
  next
    case False
    then have one: "length (filter (\<lambda>x. student_key_of x = Inr k) xs) = 1"
      using Cons.prems(3) by simp
    have val: "\<forall>x\<in>set xs. student_key_of x = Inr k \<longrightarrow> ser x = Is_valid"
      using Cons.prems(4) by simp
    from Cons.prems(1) show ?thesis
    proof (cases rule: validation_loop_Cons_cases)
      case (dup k' d)
      then have "k' \<noteq> k" using False by auto
      with Cons.IH[OF dup(4) Cons.prems(2) one val] show ?thesis
        by (auto simp: AList.update_conv')
    next
      case (valid k' d)
      then have "k' \<noteq> k" using False by auto
      then have "k \<notin> insert k' seen" using Cons.prems(2) by simp
      from Cons.IH[OF valid(5) this one val] show ?thesis by auto
    next
      case (invalid k' d)
      then have ne: "k' \<noteq> k" using False by auto
      then have "k \<notin> insert k' seen" using Cons.prems(2) by simp
      from Cons.IH[OF invalid(5) this one val] ne show ?thesis
        by (auto simp: AList.update_conv')
    qed
  qed
qed

section \<open>The loop of the program view\<close>

lemma writes_own_row_program_operation:
  "writes_own_row (program_operation get_user m)"
  by (cases m)
     (auto simp: writes_own_row_def program_operation_def create_program_enrollment_def
                 modify_program_enrollment_def create_or_modify_program_enrollment_def Let_def
           split: option.splits)

lemma program_operation_status_independent:
  "fst (program_operation get_user m request_data row db) =
   fst (program_operation get_user' m request_data row db')"
  by (cases m)
     (auto simp: program_operation_def create_program_enrollment_def
                 modify_program_enrollment_def create_or_modify_program_enrollment_def Let_def
           split: option.splits)

lemma map_of_Some_in_keys: "map_of res k = Some v \<Longrightarrow> k \<in> fst ` set res"
  by (metis domI dom_map_of_conv_image_fst)

lemma apply_loop_keys:
  "apply_loop operation existing enr res db = (res', db') \<Longrightarrow>
     fst ` set res' = fst ` set res \<union> fst ` set enr"
proof (induction enr arbitrary: res db)
  case Nil
  then show ?case by simp
next
  case (Cons e enr)
  show ?case
  proof (cases "map_of res (fst e) = Some DUPLICATED")
    case True
    then have "apply_loop operation existing enr res db = (res', db')"
      using Cons.prems by simp
    from Cons.IH[OF this] map_of_Some_in_keys[OF True] show ?thesis by auto
  next
    case False
    obtain st db1 where op: "operation e (existing (fst e)) db = (st, db1)"
      by (cases "operation e (existing (fst e)) db")
    with False Cons.prems
    have "apply_loop operation existing enr (AList.update (fst e) st res) db1 = (res', db')"
      by simp
    from Cons.IH[OF this] show ?thesis by (auto simp: AList.dom_update)
  qed
qed

lemma apply_loop_distinct:
  "apply_loop operation existing enr res db = (res', db') \<Longrightarrow> distinct (map fst res) \<Longrightarrow>
     distinct (map fst res')"
proof (induction enr arbitrary: res db)
  case Nil
  then show ?case by simp
next
  case (Cons e enr)
  show ?case
  proof (cases "map_of res (fst e) = Some DUPLICATED")
    case True
    then have "apply_loop operation existing enr res db = (res', db')"
      using Cons.prems by simp
    from Cons.IH[OF this Cons.prems(2)] show ?thesis .
  next
    case False
    obtain st db1 where op: "operation e (existing (fst e)) db = (st, db1)"
      by (cases "operation e (existing (fst e)) db")
    with False Cons.prems
    have "apply_loop operation existing enr (AList.update (fst e) st res) db1 = (res', db')"
      by simp
    moreover have "distinct (map fst (AList.update (fst e) st res))"
      using Cons.prems(2) by (simp add: AList.distinct_update)
    ultimately show ?thesis by (rule Cons.IH)
  qed
qed

lemma apply_loop_skips_duplicated:
  "apply_loop operation existing enr res db = (res', db') \<Longrightarrow> writes_own_row operation \<Longrightarrow>
     map_of res k = Some DUPLICATED \<Longrightarrow>
     map_of res' k = Some DUPLICATED \<and> db' k = db k"
proof (induction enr arbitrary: res db)
  case Nil
  then show ?case by simp
next
  case (Cons e enr)
  show ?case
  proof (cases "map_of res (fst e) = Some DUPLICATED")
    case True
    then have "apply_loop operation existing enr res db = (res', db')"
      using Cons.prems by simp
    from Cons.IH[OF this Cons.prems(2,3)] show ?thesis .
  next
    case False
    with Cons.prems(3) have ne: "k \<noteq> fst e" by auto
    obtain st db1 where op: "operation e (existing (fst e)) db = (st, db1)"
      by (cases "operation e (existing (fst e)) db")
    with False Cons.prems
    have l: "apply_loop operation existing enr (AList.update (fst e) st res) db1 = (res', db')"
      by simp
    have "map_of (AList.update (fst e) st res) k = Some DUPLICATED"
      using ne Cons.prems(3) by (simp add: AList.update_conv')
    from Cons.IH[OF l Cons.prems(2) this]
    have "map_of res' k = Some DUPLICATED \<and> db' k = db1 k" .
    moreover have "db1 k = db k"
      using Cons.prems(2) ne op unfolding writes_own_row_def by (metis snd_conv)
    ultimately show ?thesis by simp
  qed
qed

lemma apply_loop_absent:
  "apply_loop operation existing enr res db = (res', db') \<Longrightarrow> writes_own_row operation \<Longrightarrow>
     k \<notin> fst ` set enr \<Longrightarrow>
     map_of res' k = map_of res k \<and> db' k = db k"
proof (induction enr arbitrary: res db)
  case Nil
  then show ?case by simp
next
  case (Cons e enr)
  have ne: "k \<noteq> fst e" and rest: "k \<notin> fst ` set enr" using Cons.prems(3) by auto
  show ?case
  proof (cases "map_of res (fst e) = Some DUPLICATED")
    case True
    then have "apply_loop operation existing enr res db = (res', db')"
      using Cons.prems by simp
    from Cons.IH[OF this Cons.prems(2) rest] show ?thesis .
  next
    case False
    obtain st db1 where op: "operation e (existing (fst e)) db = (st, db1)"
      by (cases "operation e (existing (fst e)) db")
    with False Cons.prems
    have l: "apply_loop operation existing enr (AList.update (fst e) st res) db1 = (res', db')"
      by simp
    from Cons.IH[OF l Cons.prems(2) rest]
    have "map_of res' k = map_of (AList.update (fst e) st res) k \<and> db' k = db1 k" .
    moreover have "db1 k = db k"
      using Cons.prems(2) ne op unfolding writes_own_row_def by (metis snd_conv)
    ultimately show ?thesis using ne by (simp add: AList.update_conv')
  qed
qed

lemma apply_loop_processed:
  "apply_loop operation existing enr res db = (res', db') \<Longrightarrow> writes_own_row operation \<Longrightarrow>
     distinct (map fst enr) \<Longrightarrow> (k, d) \<in> set enr \<Longrightarrow> map_of res k \<noteq> Some DUPLICATED \<Longrightarrow>
     \<exists>db1. db1 k = db k \<and>
       map_of res' k = Some (fst (operation (k, d) (existing k) db1)) \<and>
       db' k = snd (operation (k, d) (existing k) db1) k"
proof (induction enr arbitrary: res db)
  case Nil
  then show ?case by simp
next
  case (Cons e enr)
  show ?case
  proof (cases "e = (k, d)")
    case True
    obtain st db1 where op: "operation (k, d) (existing k) db = (st, db1)"
      by (cases "operation (k, d) (existing k) db")
    with True Cons.prems(1,5)
    have l: "apply_loop operation existing enr (AList.update k st res) db1 = (res', db')"
      by simp
    have "k \<notin> fst ` set enr" using Cons.prems(3) True by auto
    from apply_loop_absent[OF l Cons.prems(2) this] op
    have "map_of res' k = Some (fst (operation (k, d) (existing k) db)) \<and>
          db' k = snd (operation (k, d) (existing k) db) k"
      by (simp add: AList.update_conv')
    then show ?thesis by blast
  next
    case False
    then have mem: "(k, d) \<in> set enr" using Cons.prems(4) by simp
    then have kin: "k \<in> fst ` set enr" by (metis fst_conv image_eqI)
    have "fst e \<notin> fst ` set enr" using Cons.prems(3) by simp
    with kin have ne: "k \<noteq> fst e" by blast
    have dist: "distinct (map fst enr)" using Cons.prems(3) by simp
    show ?thesis
    proof (cases "map_of res (fst e) = Some DUPLICATED")
      case True
      then have "apply_loop operation existing enr res db = (res', db')"
        using Cons.prems by simp
      from Cons.IH[OF this Cons.prems(2) dist mem Cons.prems(5)] show ?thesis .
    next
      case False
      obtain st db1 where op: "operation e (existing (fst e)) db = (st, db1)"
        by (cases "operation e (existing (fst e)) db")
      with False Cons.prems
      have l: "apply_loop operation existing enr (AList.update (fst e) st res) db1 = (res', db')"
        by simp
      have nd: "map_of (AList.update (fst e) st res) k \<noteq> Some DUPLICATED"
        using ne Cons.prems(5) by (simp add: AList.update_conv')
      have eq: "db1 k = db k"
        using Cons.prems(2) ne op unfolding writes_own_row_def by (metis snd_conv)
      from Cons.IH[OF l Cons.prems(2) dist mem nd] eq show ?thesis by auto
    qed
  qed
qed

lemma apply_loop_response_independent:
  "(\<And>request_data row db1 db2.
      fst (operation request_data row db1) = fst (operation' request_data row db2)) \<Longrightarrow>
   fst (apply_loop operation existing enr res db) =
   fst (apply_loop operation' existing enr res db2)"
proof (induction enr arbitrary: res db db2)
  case Nil
  then show ?case by simp
next
  case (Cons e enr)
  show ?case
  proof (cases "map_of res (fst e) = Some DUPLICATED")
    case True
    then show ?thesis using Cons.IH[OF Cons.prems] by simp
  next
    case False
    obtain st db1 where op: "operation e (existing (fst e)) db = (st, db1)"
      by (cases "operation e (existing (fst e)) db")
    obtain st' db1' where op': "operation' e (existing (fst e)) db2 = (st', db1')"
      by (cases "operation' e (existing (fst e)) db2")
    have "st = st'" using Cons.prems[of e "existing (fst e)" db db2] op op' by simp
    then show ?thesis using False op op' Cons.IH[OF Cons.prems] by simp
  qed
qed

section \<open>The loop of the course view\<close>

lemma course_apply_loop_Cons [simp]:
  "course_apply_loop operation existing (enrollment # rest) results pces =
     (if map_of results (fst enrollment) = Some DUPLICATED
      then course_apply_loop operation existing rest results pces
      else (case existing (fst enrollment) of
              None \<Rightarrow>
                course_apply_loop operation existing rest
                  (AList.update (fst enrollment) NOT_IN_PROGRAM results) pces
            | Some program_enrollment \<Rightarrow>
                (case operation enrollment program_enrollment (pces (fst enrollment)) of
                   Inl e \<Rightarrow> (Inl e, pces)
                 | Inr (st, row) \<Rightarrow>
                     course_apply_loop operation existing rest
                       (AList.update (fst enrollment) st results)
                       (pces(fst enrollment := row)))))"
  by (simp add: Let_def)

declare course_apply_loop.simps(2) [simp del]

lemma course_apply_loop_keys:
  "course_apply_loop operation existing enr res pces = (Inr res', pces') \<Longrightarrow>
     fst ` set res' = fst ` set res \<union> fst ` set enr"
proof (induction enr arbitrary: res pces)
  case Nil
  then show ?case by simp
next
  case (Cons e enr)
  show ?case
  proof (cases "map_of res (fst e) = Some DUPLICATED")
    case True
    then have "course_apply_loop operation existing enr res pces = (Inr res', pces')"
      using Cons.prems by simp
    from Cons.IH[OF this] map_of_Some_in_keys[OF True] show ?thesis by auto
  next
    case False
    show ?thesis
    proof (cases "existing (fst e)")
      case None
      with False Cons.prems
      have "course_apply_loop operation existing enr
              (AList.update (fst e) NOT_IN_PROGRAM res) pces = (Inr res', pces')"
        by simp
      from Cons.IH[OF this] show ?thesis by (auto simp: AList.dom_update)
    next
      case (Some row)
      show ?thesis
      proof (cases "operation e row (pces (fst e))")
        case (Inl err)
        with False Some Cons.prems show ?thesis by simp
      next
        case (Inr p)
        obtain st c where p: "p = (st, c)" by (cases p)
        with False Some Inr Cons.prems
        have "course_apply_loop operation existing enr
                (AList.update (fst e) st res) (pces(fst e := c)) = (Inr res', pces')"
          by simp
        from Cons.IH[OF this] show ?thesis by (auto simp: AList.dom_update)
      qed
    qed
  qed
qed

lemma course_apply_loop_distinct:
  "course_apply_loop operation existing enr res pces = (Inr res', pces') \<Longrightarrow>
     distinct (map fst res) \<Longrightarrow> distinct (map fst res')"
proof (induction enr arbitrary: res pces)
  case Nil
  then show ?case by simp
next
  case (Cons e enr)
  show ?case
  proof (cases "map_of res (fst e) = Some DUPLICATED")
    case True
    then have "course_apply_loop operation existing enr res pces = (Inr res', pces')"
      using Cons.prems by simp
    from Cons.IH[OF this Cons.prems(2)] show ?thesis .
  next
    case False
    show ?thesis
    proof (cases "existing (fst e)")
      case None
      with False Cons.prems
      have "course_apply_loop operation existing enr
              (AList.update (fst e) NOT_IN_PROGRAM res) pces = (Inr res', pces')"
        by simp
      moreover have "distinct (map fst (AList.update (fst e) NOT_IN_PROGRAM res))"
        using Cons.prems(2) by (simp add: AList.distinct_update)
      ultimately show ?thesis by (rule Cons.IH)
    next
      case (Some row)
      show ?thesis
      proof (cases "operation e row (pces (fst e))")
        case (Inl err)
        with False Some Cons.prems show ?thesis by simp
      next
        case (Inr p)
        obtain st c where p: "p = (st, c)" by (cases p)
        with False Some Inr Cons.prems
        have "course_apply_loop operation existing enr
                (AList.update (fst e) st res) (pces(fst e := c)) = (Inr res', pces')"
          by simp
        moreover have "distinct (map fst (AList.update (fst e) st res))"
          using Cons.prems(2) by (simp add: AList.distinct_update)
        ultimately show ?thesis by (rule Cons.IH)
      qed
    qed
  qed
qed

lemma course_apply_loop_writes_enrolled_only:
  "course_apply_loop operation existing enr res pces = (out, pces') \<Longrightarrow>
     existing k = None \<Longrightarrow> pces' k = pces k"
proof (induction enr arbitrary: res pces)
  case Nil
  then show ?case by simp
next
  case (Cons e enr)
  show ?case
  proof (cases "map_of res (fst e) = Some DUPLICATED")
    case True
    then have "course_apply_loop operation existing enr res pces = (out, pces')"
      using Cons.prems by simp
    from Cons.IH[OF this Cons.prems(2)] show ?thesis .
  next
    case False
    show ?thesis
    proof (cases "existing (fst e)")
      case None
      with False Cons.prems
      have "course_apply_loop operation existing enr
              (AList.update (fst e) NOT_IN_PROGRAM res) pces = (out, pces')"
        by simp
      from Cons.IH[OF this Cons.prems(2)] show ?thesis .
    next
      case (Some row)
      then have ne: "k \<noteq> fst e" using Cons.prems(2) by auto
      show ?thesis
      proof (cases "operation e row (pces (fst e))")
        case (Inl err)
        with False Some Cons.prems show ?thesis by simp
      next
        case (Inr p)
        obtain st c where p: "p = (st, c)" by (cases p)
        with False Some Inr Cons.prems
        have "course_apply_loop operation existing enr
                (AList.update (fst e) st res) (pces(fst e := c)) = (out, pces')"
          by simp
        from Cons.IH[OF this Cons.prems(2)] ne show ?thesis by simp
      qed
    qed
  qed
qed

lemma course_apply_loop_absent:
  "course_apply_loop operation existing enr res pces = (Inr res', pces') \<Longrightarrow>
     k \<notin> fst ` set enr \<Longrightarrow> map_of res' k = map_of res k"
proof (induction enr arbitrary: res pces)
  case Nil
  then show ?case by simp
next
  case (Cons e enr)
  have ne: "k \<noteq> fst e" and rest: "k \<notin> fst ` set enr" using Cons.prems(2) by auto
  show ?case
  proof (cases "map_of res (fst e) = Some DUPLICATED")
    case True
    then have "course_apply_loop operation existing enr res pces = (Inr res', pces')"
      using Cons.prems by simp
    from Cons.IH[OF this rest] show ?thesis .
  next
    case False
    show ?thesis
    proof (cases "existing (fst e)")
      case None
      with False Cons.prems
      have "course_apply_loop operation existing enr
              (AList.update (fst e) NOT_IN_PROGRAM res) pces = (Inr res', pces')"
        by simp
      from Cons.IH[OF this rest] ne show ?thesis by (simp add: AList.update_conv')
    next
      case (Some row)
      show ?thesis
      proof (cases "operation e row (pces (fst e))")
        case (Inl err)
        with False Some Cons.prems show ?thesis by simp
      next
        case (Inr p)
        obtain st c where p: "p = (st, c)" by (cases p)
        with False Some Inr Cons.prems
        have "course_apply_loop operation existing enr
                (AList.update (fst e) st res) (pces(fst e := c)) = (Inr res', pces')"
          by simp
        from Cons.IH[OF this rest] ne show ?thesis by (simp add: AList.update_conv')
      qed
    qed
  qed
qed

lemma course_apply_loop_not_in_program:
  "course_apply_loop operation existing enr res pces = (Inr res', pces') \<Longrightarrow>
     distinct (map fst enr) \<Longrightarrow> k \<in> fst ` set enr \<Longrightarrow>
     map_of res k \<noteq> Some DUPLICATED \<Longrightarrow> existing k = None \<Longrightarrow>
     map_of res' k = Some NOT_IN_PROGRAM"
proof (induction enr arbitrary: res pces)
  case Nil
  then show ?case by simp
next
  case (Cons e enr)
  have dist: "distinct (map fst enr)" and fresh: "fst e \<notin> fst ` set enr"
    using Cons.prems(2) by auto
  show ?case
  proof (cases "fst e = k")
    case True
    with Cons.prems(1,4,5)
    have l: "course_apply_loop operation existing enr
               (AList.update k NOT_IN_PROGRAM res) pces = (Inr res', pces')"
      by simp
    have "k \<notin> fst ` set enr" using fresh True by simp
    from course_apply_loop_absent[OF l this] show ?thesis by (simp add: AList.update_conv')
  next
    case False
    then have mem: "k \<in> fst ` set enr" using Cons.prems(3) by auto
    show ?thesis
    proof (cases "map_of res (fst e) = Some DUPLICATED")
      case True
      then have "course_apply_loop operation existing enr res pces = (Inr res', pces')"
        using Cons.prems by simp
      from Cons.IH[OF this dist mem Cons.prems(4,5)] show ?thesis .
    next
      case nd: False
      show ?thesis
      proof (cases "existing (fst e)")
        case None
        with nd Cons.prems
        have l: "course_apply_loop operation existing enr
                (AList.update (fst e) NOT_IN_PROGRAM res) pces = (Inr res', pces')"
          by simp
        have "map_of (AList.update (fst e) NOT_IN_PROGRAM res) k \<noteq> Some DUPLICATED"
          using False Cons.prems(4) by (simp add: AList.update_conv')
        from Cons.IH[OF l dist mem this Cons.prems(5)] show ?thesis .
      next
        case (Some row)
        show ?thesis
        proof (cases "operation e row (pces (fst e))")
          case (Inl err)
          with nd Some Cons.prems show ?thesis by simp
        next
          case (Inr p)
          obtain st c where p: "p = (st, c)" by (cases p)
          with nd Some Inr Cons.prems
          have l: "course_apply_loop operation existing enr
                  (AList.update (fst e) st res) (pces(fst e := c)) = (Inr res', pces')"
            by simp
          have "map_of (AList.update (fst e) st res) k \<noteq> Some DUPLICATED"
            using False Cons.prems(4) by (simp add: AList.update_conv')
          from Cons.IH[OF l dist mem this Cons.prems(5)] show ?thesis .
        qed
      qed
    qed
  qed
qed

lemma good_count_zero:
  "length (filter P xs) = 0 \<longleftrightarrow> (\<forall>x\<in>set xs. \<not> P x)"
  by (simp add: filter_empty_conv)

lemma good_count_all:
  "length (filter P xs) = length xs \<longleftrightarrow> (\<forall>x\<in>set xs. P x)"
  by (metis filter_id_conv length_filter_less less_irrefl)

lemma create_or_modify_enrollments_Results:
  assumes "create_or_modify_enrollments body ser operation success db = (resp, db')"
    and "data resp = Results r"
  shows "\<exists>entries res enr. body = JList entries \<and> length entries \<le> MAX_ENROLLMENT_RECORDS \<and>
           validation_loop ser entries {} [] [] = Inr (res, enr) \<and>
           apply_loop operation (get_existing_program_enrollments db enr) enr res db = (r, db') \<and>
           resp = get_created_or_updated_response r success"
  using assms
  by (auto simp: create_or_modify_enrollments_def Response_def
                 get_created_or_updated_response_def Let_def
           split: json.splits if_splits sum.splits prod.splits)

lemma course_create_or_modify_enrollments_Results:
  assumes "course_create_or_modify_enrollments body ser operation db pces = (Inr resp, pces')"
    and "data resp = Results r"
  shows "\<exists>entries res enr. body = JList entries \<and> length entries \<le> MAX_ENROLLMENT_RECORDS \<and>
           validation_loop ser entries {} [] [] = Inr (res, enr) \<and>
           course_apply_loop operation (get_existing_program_enrollments db enr) enr res pces
             = (Inr r, pces') \<and>
           resp = course_response r"
  using assms
  by (auto simp: course_create_or_modify_enrollments_def Response_def course_validation_loop_eq
                 course_response_def Let_def
           split: json.splits if_splits sum.splits prod.splits)

section \<open>Batch size and the empty batch\<close>

text \<open>
  Claim C5. A POST, PATCH or PUT request whose body is a list of more than 25 records is
  answered 413 by both batch views, whatever the records, the serializers and the
  operation are: the answer is the same message for every content, and the tables are
  returned as they were, so no record is validated or applied.
\<close>

theorem over_limit_413:
  assumes "25 < length entries"
  shows "program_enrollments_view create_serializer modify_serializer get_user m
           (JList entries) db
         = (Response (Message ''enrollment limit 25'') HTTP_413_REQUEST_ENTITY_TOO_LARGE, db)
       \<and> program_course_enrollments_view ser create_helper change_helper m
           (JList entries) db pces
         = (Inr (Response (Message ''enrollment limit 25'') HTTP_413_REQUEST_ENTITY_TOO_LARGE),
            pces)"
  using assms
  by (simp add: program_enrollments_view_def create_or_modify_enrollments_def
                program_course_enrollments_view_def course_create_or_modify_enrollments_def
                MAX_ENROLLMENT_RECORDS_def)

theorem over_limit_413_witness:
  "25 < length (replicate 26 (learner ''001'' ''enrolled''))
   \<and> program_enrollments_view ProgramEnrollmentCreateRequestSerializer
        ProgramEnrollmentModifyRequestSerializer (\<lambda>k. Returns None) POST
        (JList (replicate 26 (learner ''001'' ''enrolled''))) Map.empty
      = (Response (Message ''enrollment limit 25'') HTTP_413_REQUEST_ENTITY_TOO_LARGE, Map.empty)
   \<and> program_course_enrollments_view ProgramCourseEnrollmentRequestSerializer
        sample_create sample_change POST
        (JList (replicate 26 (learner ''001'' ''enrolled''))) Map.empty Map.empty
      = (Inr (Response (Message ''enrollment limit 25'') HTTP_413_REQUEST_ENTITY_TOO_LARGE),
         Map.empty)"
proof -
  have h: "25 < length (replicate 26 (learner ''001'' ''enrolled''))" by simp
  from over_limit_413[OF h] h show ?thesis by blast
qed

text \<open>
  Claim C9. A batch request whose body is the empty list is answered 422 with an empty
  result map by both batch views and for each of POST, PATCH and PUT: the empty batch
  takes the branch of zero successes although no record failed. The tables are unchanged.
\<close>

theorem empty_batch_422:
  "program_enrollments_view create_serializer modify_serializer get_user m (JList []) db
     = (Response (Results []) HTTP_422_UNPROCESSABLE_ENTITY, db)
   \<and> program_course_enrollments_view ser create_helper change_helper m (JList []) db pces
     = (Inr (Response (Results []) HTTP_422_UNPROCESSABLE_ENTITY), pces)"
  by (simp add: program_enrollments_view_def create_or_modify_enrollments_def
                program_course_enrollments_view_def course_create_or_modify_enrollments_def
                MAX_ENROLLMENT_RECORDS_def get_created_or_updated_response_def
                course_response_def get_existing_program_enrollments_def)

theorem empty_batch_422_witness:
  "program_enrollments_view ProgramEnrollmentCreateRequestSerializer
        ProgramEnrollmentModifyRequestSerializer (\<lambda>k. Returns None) PUT (JList []) Map.empty
     = (Response (Results []) HTTP_422_UNPROCESSABLE_ENTITY, Map.empty)
   \<and> program_course_enrollments_view ProgramCourseEnrollmentRequestSerializer
        sample_create sample_change PUT (JList []) Map.empty Map.empty
     = (Inr (Response (Results []) HTTP_422_UNPROCESSABLE_ENTITY), Map.empty)"
  using empty_batch_422[of ProgramEnrollmentCreateRequestSerializer
        ProgramEnrollmentModifyRequestSerializer "\<lambda>k. Returns None" PUT Map.empty
        ProgramCourseEnrollmentRequestSerializer sample_create sample_change Map.empty]
  by simp

section \<open>The status of a grade listing\<close>

lemma list_all_map_is_error:
  "list_all is_error rs = list_all id (map is_error rs)"
  by (induction rs) simp_all

lemma list_ex_map_is_error:
  "list_ex is_error rs = list_ex id (map is_error rs)"
  by (induction rs) simp_all

lemma calc_response_code_flags:
  "calc_response_code rs =
     (let flags = map is_error rs in
      if flags = [] then HTTP_204_NO_CONTENT
      else if list_all id flags then HTTP_422_UNPROCESSABLE_ENTITY
      else if list_ex id flags then HTTP_207_MULTI_STATUS
      else HTTP_200_OK)"
  by (simp add: calc_response_code_def list_all_map_is_error[symmetric]
                list_ex_map_is_error[symmetric])

text \<open>
  Claim C3. The status of a grade listing is a function of the error flags of the grade
  results alone: 204 for no result, 422 when there are results and all are errors, 207
  when there is an error and a success, 200 when there are results and none is an error.
\<close>

theorem calc_response_code_cases:
  "(rs = [] \<longrightarrow> calc_response_code rs = HTTP_204_NO_CONTENT)
   \<and> (rs \<noteq> [] \<and> (\<forall>r\<in>set rs. is_error r)
        \<longrightarrow> calc_response_code rs = HTTP_422_UNPROCESSABLE_ENTITY)
   \<and> ((\<exists>r\<in>set rs. is_error r) \<and> (\<exists>r\<in>set rs. \<not> is_error r)
        \<longrightarrow> calc_response_code rs = HTTP_207_MULTI_STATUS)
   \<and> (rs \<noteq> [] \<and> (\<forall>r\<in>set rs. \<not> is_error r)
        \<longrightarrow> calc_response_code rs = HTTP_200_OK)
   \<and> (map is_error rs = map is_error rs' \<longrightarrow> calc_response_code rs = calc_response_code rs')"
proof (intro conjI impI)
  show "calc_response_code rs = HTTP_204_NO_CONTENT" if "rs = []"
    using that by (simp add: calc_response_code_def)
  show "calc_response_code rs = HTTP_422_UNPROCESSABLE_ENTITY"
    if "rs \<noteq> [] \<and> (\<forall>r\<in>set rs. is_error r)"
    using that by (simp add: calc_response_code_def list_all_iff)
  show "calc_response_code rs = HTTP_207_MULTI_STATUS"
    if "(\<exists>r\<in>set rs. is_error r) \<and> (\<exists>r\<in>set rs. \<not> is_error r)"
  proof -
    from that have "rs \<noteq> []" "\<not> list_all is_error rs" "list_ex is_error rs"
      by (auto simp: list_all_iff list_ex_iff)
    then show ?thesis by (simp add: calc_response_code_def)
  qed
  show "calc_response_code rs = HTTP_200_OK"
    if "rs \<noteq> [] \<and> (\<forall>r\<in>set rs. \<not> is_error r)"
  proof -
    from that have "rs \<noteq> []" "\<not> list_all is_error rs" "\<not> list_ex is_error rs"
      by (auto simp: list_all_iff list_ex_iff neq_Nil_conv)
    then show ?thesis by (simp add: calc_response_code_def)
  qed
  show "calc_response_code rs = calc_response_code rs'"
    if "map is_error rs = map is_error rs'"
    using that by (simp add: calc_response_code_flags)
qed

theorem calc_response_code_cases_witness:
  "calc_response_code ([] :: (string, nat, string) grade_result list) = HTTP_204_NO_CONTENT
   \<and> calc_response_code [ProgramCourseGradeError ''001'' (Some ''Timeout''),
         ProgramCourseGradeError ''002'' (None :: string option)
           :: (string, nat, string) grade_result]
       = HTTP_422_UNPROCESSABLE_ENTITY
   \<and> calc_response_code [ProgramCourseGradeOk ''001'' (95 :: nat),
         ProgramCourseGradeError ''002'' (Some ''Timeout'')]
       = HTTP_207_MULTI_STATUS
   \<and> calc_response_code [ProgramCourseGradeOk ''001'' (95 :: nat),
         ProgramCourseGradeOk ''002'' 60 :: (string, nat, string) grade_result]
       = HTTP_200_OK"
proof -
  let ?none = "[] :: (string, nat, string) grade_result list"
  let ?errors = "[ProgramCourseGradeError ''001'' (Some ''Timeout''),
         ProgramCourseGradeError ''002'' None] :: (string, nat, string) grade_result list"
  let ?mixed = "[ProgramCourseGradeOk ''001'' 95,
         ProgramCourseGradeError ''002'' (Some ''Timeout'')]
           :: (string, nat, string) grade_result list"
  let ?grades = "[ProgramCourseGradeOk ''001'' 95,
         ProgramCourseGradeOk ''002'' 60] :: (string, nat, string) grade_result list"
  show ?thesis
    using calc_response_code_cases[of ?none ?none] calc_response_code_cases[of ?errors ?errors]
      calc_response_code_cases[of ?mixed ?mixed] calc_response_code_cases[of ?grades ?grades]
    by simp
qed

section \<open>The grade reader\<close>

lemma zip_with_map: "zip xs (map f xs) = map (\<lambda>x. (x, f x)) xs"
  by (induction xs) simp_all

lemma iter_grades_CourseGradeFactory_iter:
  "iter_grades (CourseGradeFactory_iter read) users =
     map (\<lambda>u. case read u of Inl exception \<Rightarrow> (None, Some exception)
                 | Inr course_grade \<Rightarrow> (Some course_grade, None)) users"
  by (simp add: iter_grades_def CourseGradeFactory_iter_def sum.case_distrib[of "case_prod _"]
           cong: sum.case_cong)

lemma load_grade_results_closed_form:
  "load_grade_results (CourseGradeFactory_iter read) enrollment_user page =
     map (\<lambda>enrollment.
            case read (enrollment_user enrollment) of
              Inl exception \<Rightarrow> ProgramCourseGradeError enrollment (Some exception)
            | Inr course_grade \<Rightarrow> ProgramCourseGradeOk enrollment course_grade) page"
proof -
  have "zip page (map (\<lambda>u. case read u of Inl exception \<Rightarrow> (None, Some exception)
                 | Inr course_grade \<Rightarrow> (Some course_grade, None)) (map enrollment_user page))
        = map (\<lambda>e. (e, case read (enrollment_user e) of Inl exception \<Rightarrow> (None, Some exception)
                 | Inr course_grade \<Rightarrow> (Some course_grade, None))) page"
    by (simp add: zip_with_map comp_def)
  then show ?thesis
    by (auto simp: load_grade_results_def iter_grades_CourseGradeFactory_iter Let_def comp_def
             split: sum.splits)
qed

text \<open>
  Claim C6. The grade reader yields one result per enrollment of the page, in the order
  of the page: the list of the enrollments of the results is the page. The result of a
  learner is an error record carrying the exception when loading the grade of that
  learner raised, and a success record carrying the grade otherwise; the result at a
  position depends on that learner alone, so a failure leaves the other results as they
  are. The per-learner capture of the exception is that of \<open>CourseGradeFactory.iter\<close>,
  modelled from the spec.
\<close>

theorem load_grade_results_per_learner:
  "length (load_grade_results (CourseGradeFactory_iter read) enrollment_user page) = length page
   \<and> map result_enrollment (load_grade_results (CourseGradeFactory_iter read) enrollment_user page)
       = page
   \<and> (\<forall>i<length page.
        load_grade_results (CourseGradeFactory_iter read) enrollment_user page ! i =
          (case read (enrollment_user (page ! i)) of
             Inl exception \<Rightarrow> ProgramCourseGradeError (page ! i) (Some exception)
           | Inr course_grade \<Rightarrow> ProgramCourseGradeOk (page ! i) course_grade))"
proof (intro conjI allI impI)
  show "length (load_grade_results (CourseGradeFactory_iter read) enrollment_user page)
          = length page"
    by (simp add: load_grade_results_closed_form)
  have "result_enrollment (case read (enrollment_user e) of
              Inl exception \<Rightarrow> ProgramCourseGradeError e (Some exception)
            | Inr course_grade \<Rightarrow> ProgramCourseGradeOk e course_grade) = e" for e
    by (cases "read (enrollment_user e)") simp_all
  then show "map result_enrollment
          (load_grade_results (CourseGradeFactory_iter read) enrollment_user page) = page"
    by (simp add: load_grade_results_closed_form comp_def)
  show "load_grade_results (CourseGradeFactory_iter read) enrollment_user page ! i =
          (case read (enrollment_user (page ! i)) of
             Inl exception \<Rightarrow> ProgramCourseGradeError (page ! i) (Some exception)
           | Inr course_grade \<Rightarrow> ProgramCourseGradeOk (page ! i) course_grade)"
    if "i < length page" for i
    using that by (simp add: load_grade_results_closed_form)
qed

theorem load_grade_results_per_learner_witness:
  "(1::nat) < length [(''001'', 1::nat), (''002'', 2), (''003'', 3)]
   \<and> length (load_grade_results
        (CourseGradeFactory_iter (\<lambda>u. if u = (2::nat) then Inl ''Timeout'' else Inr (''Pass'', u)))
        snd [(''001'', 1), (''002'', 2), (''003'', 3)]) = 3
   \<and> load_grade_results
        (CourseGradeFactory_iter (\<lambda>u. if u = (2::nat) then Inl ''Timeout'' else Inr (''Pass'', u)))
        snd [(''001'', 1), (''002'', 2), (''003'', 3)] ! 1
       = ProgramCourseGradeError (''002'', 2) (Some ''Timeout'')
   \<and> load_grade_results
        (CourseGradeFactory_iter (\<lambda>u. if u = (2::nat) then Inl ''Timeout'' else Inr (''Pass'', u)))
        snd [(''001'', 1), (''002'', 2), (''003'', 3)] ! 2
       = ProgramCourseGradeOk (''003'', 3) (''Pass'', 3)"
proof -
  let ?read = "\<lambda>u. if u = (2::nat) then Inl ''Timeout'' else Inr (''Pass'', u)"
  let ?page = "[(''001'', 1), (''002'', 2), (''003'', 3 :: nat)]"
  let ?rs = "load_grade_results (CourseGradeFactory_iter ?read) snd ?page"
  from load_grade_results_per_learner[of ?read snd ?page]
  have len: "length ?rs = 3" and at: "\<forall>i<3. ?rs ! i =
          (case ?read (snd (?page ! i)) of
             Inl exception \<Rightarrow> ProgramCourseGradeError (?page ! i) (Some exception)
           | Inr course_grade \<Rightarrow> ProgramCourseGradeOk (?page ! i) course_grade)"
    by simp_all
  from at have "?rs ! 1 = ProgramCourseGradeError (''002'', 2) (Some ''Timeout'')"
    "?rs ! 2 = ProgramCourseGradeOk (''003'', 3) (''Pass'', 3)"
    by simp_all
  with len show ?thesis by simp
qed

section \<open>Evaluation of the views on sample requests\<close>

lemmas view_defs =
  program_enrollments_view_def create_or_modify_enrollments_def
  program_course_enrollments_view_def course_create_or_modify_enrollments_def
  MAX_ENROLLMENT_RECORDS_def get_created_or_updated_response_def
  course_response_def get_existing_program_enrollments_def
  validate_enrollment_request_def check_enrollment_request_def student_key_of_def
  program_operation_def program_success_status_def course_operation_of_def
  create_program_enrollment_def modify_program_enrollment_def
  create_or_modify_program_enrollment_def enroll_learner_in_course_def
  modify_learner_enrollment_status_def create_or_update_learner_enrollment_def
  ProgramEnrollmentCreateRequestSerializer_def ProgramEnrollmentModifyRequestSerializer_def
  ProgramCourseEnrollmentRequestSerializer_def request_serializer_def
  ProgramEnrollmentStatuses_def ProgramCourseEnrollmentStatuses_def
  ProgramResponseStatuses_OK_def ProgramCourseResponseStatuses_OK_def
  learner_def sample_create_def sample_change_def dict_get_def Response_def
  DUPLICATED_def INVALID_STATUS_def CONFLICT_def NOT_IN_PROGRAM_def NOT_FOUND_def Let_def

section \<open>Malformed batches\<close>

lemma bad_entry_raises:
  assumes "\<forall>d. x \<noteq> JDict d \<or> map_of d ''student_key'' = None"
  shows "\<exists>err. student_key_of x = Inl err"
proof (cases x)
  case (JDict d)
  with assms have "map_of d ''student_key'' = None" by simp
  with JDict show ?thesis by (simp add: student_key_of_def)
qed (simp_all add: student_key_of_def)

text \<open>
  Claim C7, amended. A batch request whose body is not a list, or is a list of at most
  25 entries with an entry that is not a dict or that is a dict without
  \<open>student_key\<close>, is rejected as a whole with the plain message
  \<open>invalid enrollment record\<close>: status 422 by the program view, 400 by the course view,
  for each of POST, PATCH and PUT. No result map is produced and the tables are
  unchanged.
\<close>

theorem malformed_batch_rejected:
  assumes "(\<forall>entries. body \<noteq> JList entries)
         \<or> (\<exists>entries. body = JList entries \<and> length entries \<le> 25 \<and>
               (\<exists>x\<in>set entries. \<forall>d. x \<noteq> JDict d \<or> map_of d ''student_key'' = None))"
  shows "program_enrollments_view create_serializer modify_serializer get_user m body db
           = (Response (Message ''invalid enrollment record'') HTTP_422_UNPROCESSABLE_ENTITY, db)
       \<and> program_course_enrollments_view ser create_helper change_helper m body db pces
           = (Inr (Response (Message ''invalid enrollment record'') HTTP_400_BAD_REQUEST), pces)"
  using assms
proof (elim disjE exE conjE bexE)
  assume "\<forall>entries. body \<noteq> JList entries"
  then show ?thesis
    by (cases body)
       (simp_all add: program_enrollments_view_def create_or_modify_enrollments_def
          program_course_enrollments_view_def course_create_or_modify_enrollments_def)
next
  fix entries x
  assume b: "body = JList entries" "length entries \<le> 25" "x \<in> set entries"
    and x: "\<forall>d. x \<noteq> JDict d \<or> map_of d ''student_key'' = None"
  from bad_entry_raises[OF x] b(3)
  have "\<exists>x\<in>set entries. \<exists>err. student_key_of x = Inl err" by blast
  from validation_loop_raises[OF this]
  have "\<exists>err. validation_loop s entries {} [] [] = Inl err" for s by blast
  then obtain e1 e2 where
    "validation_loop (case m of POST \<Rightarrow> create_serializer | PATCH \<Rightarrow> modify_serializer
          | PUT \<Rightarrow> create_serializer) entries {} [] [] = Inl e1"
    "validation_loop ser entries {} [] [] = Inl e2" by metis
  with b show ?thesis
    by (simp add: program_enrollments_view_def create_or_modify_enrollments_def
          program_course_enrollments_view_def course_create_or_modify_enrollments_def
          MAX_ENROLLMENT_RECORDS_def course_validation_loop_eq)
qed

theorem malformed_batch_rejected_witness:
  "program_enrollments_view ProgramEnrollmentCreateRequestSerializer
     ProgramEnrollmentModifyRequestSerializer (\<lambda>k. Returns None) POST
     (JDict [(''student_key'', JStr ''001'')]) [KStr ''001'' \<mapsto> enrolled_row]
   = (Response (Message ''invalid enrollment record'') HTTP_422_UNPROCESSABLE_ENTITY,
      [KStr ''001'' \<mapsto> enrolled_row])
   \<and> program_enrollments_view ProgramEnrollmentCreateRequestSerializer
     ProgramEnrollmentModifyRequestSerializer (\<lambda>k. Returns None) PUT
     (JList [learner ''002'' ''enrolled'', JStr ''001'']) [KStr ''001'' \<mapsto> enrolled_row]
   = (Response (Message ''invalid enrollment record'') HTTP_422_UNPROCESSABLE_ENTITY,
      [KStr ''001'' \<mapsto> enrolled_row])
   \<and> program_course_enrollments_view ProgramCourseEnrollmentRequestSerializer
        sample_create sample_change PUT
        (JList [learner ''001'' ''active'', JDict [(''status'', JStr ''active'')]])
        [KStr ''001'' \<mapsto> enrolled_row] Map.empty
   = (Inr (Response (Message ''invalid enrollment record'') HTTP_400_BAD_REQUEST), Map.empty)"
proof -
  let ?db = "[KStr ''001'' \<mapsto> enrolled_row]"
  have h1: "(\<forall>entries. JDict [(''student_key'', JStr ''001'')] \<noteq> JList entries)
         \<or> (\<exists>entries. JDict [(''student_key'', JStr ''001'')] = JList entries \<and>
               length entries \<le> 25 \<and>
               (\<exists>x\<in>set entries. \<forall>d. x \<noteq> JDict d \<or> map_of d ''student_key'' = None))"
    by simp
  have h2: "(\<forall>entries. JList [learner ''002'' ''enrolled'', JStr ''001''] \<noteq> JList entries)
         \<or> (\<exists>entries. JList [learner ''002'' ''enrolled'', JStr ''001''] = JList entries \<and>
               length entries \<le> 25 \<and>
               (\<exists>x\<in>set entries. \<forall>d. x \<noteq> JDict d \<or> map_of d ''student_key'' = None))"
    by simp
  have h3: "(\<forall>entries. JList [learner ''001'' ''active'', JDict [(''status'', JStr ''active'')]]
                \<noteq> JList entries)
         \<or> (\<exists>entries. JList [learner ''001'' ''active'', JDict [(''status'', JStr ''active'')]]
                = JList entries \<and>
               length entries \<le> 25 \<and>
               (\<exists>x\<in>set entries. \<forall>d. x \<noteq> JDict d \<or> map_of d ''student_key'' = None))"
    by simp
  note a = malformed_batch_rejected[OF h1, where db = ?db and m = POST
      and create_serializer = ProgramEnrollmentCreateRequestSerializer
      and modify_serializer = ProgramEnrollmentModifyRequestSerializer
      and get_user = "\<lambda>k. Returns None", THEN conjunct1]
  note b = malformed_batch_rejected[OF h2, where db = ?db and m = PUT
      and create_serializer = ProgramEnrollmentCreateRequestSerializer
      and modify_serializer = ProgramEnrollmentModifyRequestSerializer
      and get_user = "\<lambda>k. Returns None", THEN conjunct1]
  note c = malformed_batch_rejected[OF h3, where db = ?db and m = PUT
      and ser = ProgramCourseEnrollmentRequestSerializer and create_helper = sample_create
      and change_helper = sample_change and pces = Map.empty, THEN conjunct2]
  from a b c show ?thesis by simp
qed

text \<open>
  Claim C7 as stated fails on a list of more than 25 entries: here 26 entries that are
  strings, none a dict. The size check comes first and both views answer 413, not 400 or
  422.
\<close>

theorem malformed_batch_counterexample:
  "program_enrollments_view ProgramEnrollmentCreateRequestSerializer
     ProgramEnrollmentModifyRequestSerializer (\<lambda>k. Returns None) POST
     (JList (replicate 26 (JStr ''001''))) Map.empty
   = (Response (Message ''enrollment limit 25'') HTTP_413_REQUEST_ENTITY_TOO_LARGE, Map.empty)
   \<and> program_course_enrollments_view ProgramCourseEnrollmentRequestSerializer
        sample_create sample_change POST (JList (replicate 26 (JStr ''001'')))
        Map.empty Map.empty
   = (Inr (Response (Message ''enrollment limit 25'') HTTP_413_REQUEST_ENTITY_TOO_LARGE),
      Map.empty)"
  by (simp add: program_enrollments_view_def create_or_modify_enrollments_def
                program_course_enrollments_view_def course_create_or_modify_enrollments_def
                MAX_ENROLLMENT_RECORDS_def)

section \<open>Program enrollments without an identity provider\<close>

lemma create_or_modify_enrollments_response_independent:
  assumes "\<And>request_data row db1 db2.
      fst (operation request_data row db1) = fst (operation' request_data row db2)"
  shows "fst (create_or_modify_enrollments body ser operation success db) =
         fst (create_or_modify_enrollments body ser operation' success db)"
proof (cases "\<exists>entries res enr. body = JList entries \<and>
                \<not> MAX_ENROLLMENT_RECORDS < length entries \<and>
                validation_loop ser entries {} [] [] = Inr (res, enr)")
  case False
  then show ?thesis
    by (auto simp: create_or_modify_enrollments_def split: json.splits sum.splits)
next
  case True
  then obtain entries res enr where b: "body = JList entries"
    "\<not> MAX_ENROLLMENT_RECORDS < length entries"
    "validation_loop ser entries {} [] [] = Inr (res, enr)" by blast
  from apply_loop_response_independent[of operation operation', OF assms]
  have "fst (apply_loop operation (get_existing_program_enrollments db enr) enr res db) =
        fst (apply_loop operation' (get_existing_program_enrollments db enr) enr res db)" .
  with b show ?thesis
    by (auto simp: create_or_modify_enrollments_def split: prod.splits)
qed

text \<open>
  Claim C10. When the lookup of the user raises \<open>ProviderDoesNotExistException\<close>,
  \<open>create_program_enrollment\<close> called for a learner without an enrollment stores a row
  with no user, the requested curriculum and the requested status, and returns the
  requested status, which counts as a success whenever it is one of the enrollment
  statuses. The status returned is the one returned when the lookup finds a user, and the
  whole response of the view is the same for any two lookups.
\<close>

theorem create_program_enrollment_without_provider:
  assumes "get_user_by_program_id k = Raises_ProviderDoesNotExistException"
  shows "create_program_enrollment get_user_by_program_id (k, d) None db =
           (dict_get d ''status'',
            db(k \<mapsto> \<lparr>user = None, curriculum_uuid = dict_get d ''curriculum_uuid'',
                     status = dict_get d ''status''\<rparr>))
       \<and> (dict_get d ''status'' \<in> set ProgramResponseStatuses_OK \<longrightarrow>
            fst (create_program_enrollment get_user_by_program_id (k, d) None db)
              \<in> set ProgramResponseStatuses_OK)
       \<and> fst (create_program_enrollment get_user_by_program_id (k, d) None db) =
           fst (create_program_enrollment linked (k, d) None db)
       \<and> fst (program_enrollments_view create_serializer modify_serializer
                 get_user_by_program_id m body table) =
           fst (program_enrollments_view create_serializer modify_serializer
                 linked m body table)"
proof (intro conjI)
  show c: "create_program_enrollment get_user_by_program_id (k, d) None db =
           (dict_get d ''status'',
            db(k \<mapsto> \<lparr>user = None, curriculum_uuid = dict_get d ''curriculum_uuid'',
                     status = dict_get d ''status''\<rparr>))"
    using assms by (simp add: create_program_enrollment_def Let_def)
  show "dict_get d ''status'' \<in> set ProgramResponseStatuses_OK \<longrightarrow>
            fst (create_program_enrollment get_user_by_program_id (k, d) None db)
              \<in> set ProgramResponseStatuses_OK"
    by (simp add: c)
  show "fst (create_program_enrollment get_user_by_program_id (k, d) None db) =
           fst (create_program_enrollment linked (k, d) None db)"
    by (simp add: create_program_enrollment_def Let_def)
  show "fst (program_enrollments_view create_serializer modify_serializer
                 get_user_by_program_id m body table) =
           fst (program_enrollments_view create_serializer modify_serializer
                 linked m body table)"
    unfolding program_enrollments_view_def
    by (rule create_or_modify_enrollments_response_independent)
       (rule program_operation_status_independent)
qed

theorem create_program_enrollment_without_provider_witness:
  "(\<lambda>k. Raises_ProviderDoesNotExistException) (KStr ''001'')
     = Raises_ProviderDoesNotExistException
   \<and> create_program_enrollment (\<lambda>k. Raises_ProviderDoesNotExistException)
       (KStr ''001'', [(''student_key'', JStr ''001''), (''status'', JStr ''enrolled''),
                       (''curriculum_uuid'', JStr ''c1'')]) None Map.empty
     = (JStr ''enrolled'',
        [KStr ''001'' \<mapsto> \<lparr>user = None, curriculum_uuid = JStr ''c1'',
                            status = JStr ''enrolled''\<rparr>])
   \<and> JStr ''enrolled'' \<in> set ProgramResponseStatuses_OK
   \<and> fst (program_enrollments_view ProgramEnrollmentCreateRequestSerializer
            ProgramEnrollmentModifyRequestSerializer (\<lambda>k. Raises_ProviderDoesNotExistException)
            POST (JList [learner ''001'' ''enrolled'']) Map.empty)
     = fst (program_enrollments_view ProgramEnrollmentCreateRequestSerializer
            ProgramEnrollmentModifyRequestSerializer (\<lambda>k. Returns (Some 7))
            POST (JList [learner ''001'' ''enrolled'']) Map.empty)"
  using create_program_enrollment_without_provider[
      of "\<lambda>k. Raises_ProviderDoesNotExistException" "KStr ''001''"
         "[(''student_key'', JStr ''001''), (''status'', JStr ''enrolled''),
           (''curriculum_uuid'', JStr ''c1'')]" Map.empty "\<lambda>k. Returns (Some 7)"
         ProgramEnrollmentCreateRequestSerializer ProgramEnrollmentModifyRequestSerializer
         POST "JList [learner ''001'' ''enrolled'']" Map.empty]
  by (simp add: dict_get_def ProgramResponseStatuses_OK_def)

section \<open>The result map of an accepted batch\<close>

lemma get_existing_program_enrollments_key:
  "k \<in> fst ` set enr \<Longrightarrow> get_existing_program_enrollments db enr k = db k"
  by (simp add: get_existing_program_enrollments_def)

lemma get_existing_program_enrollments_None:
  "db k = None \<Longrightarrow> get_existing_program_enrollments db enr k = None"
  by (simp add: get_existing_program_enrollments_def restrict_map_def)

lemma distinct_keys_one_entry:
  "distinct (map fst r) \<Longrightarrow> k \<in> fst ` set r \<Longrightarrow> length (filter (\<lambda>p. fst p = k) r) = 1"
proof (induction r)
  case Nil
  then show ?case by simp
next
  case (Cons p r)
  show ?case
  proof (cases "fst p = k")
    case True
    with Cons.prems(1) have "k \<notin> fst ` set r" by simp
    then have "\<forall>q\<in>set r. fst q \<noteq> k" by (metis imageI)
    then have "filter (\<lambda>p. fst p = k) r = []" by (simp add: filter_empty_conv)
    with True show ?thesis by simp
  next
    case False
    with Cons show ?thesis by auto
  qed
qed

lemma program_enrollments_view_Results:
  assumes "program_enrollments_view cs ms g m (JList entries) db = (resp, db')"
    and "data resp = Results r"
  shows "\<exists>res enr. validation_loop (case m of POST \<Rightarrow> cs | PATCH \<Rightarrow> ms | PUT \<Rightarrow> cs)
                      entries {} [] [] = Inr (res, enr) \<and>
           apply_loop (program_operation g m) (get_existing_program_enrollments db enr)
             enr res db = (r, db') \<and>
           resp = get_created_or_updated_response r (program_success_status m)"
  using create_or_modify_enrollments_Results[OF assms(1)[unfolded program_enrollments_view_def]
          assms(2)]
  by auto

lemma program_course_enrollments_view_Results:
  assumes "program_course_enrollments_view ser cr ch m (JList entries) db pces = (Inr resp, pces')"
    and "data resp = Results r"
  shows "\<exists>res enr. validation_loop ser entries {} [] [] = Inr (res, enr) \<and>
           course_apply_loop (course_operation_of cr ch m)
             (get_existing_program_enrollments db enr) enr res pces = (Inr r, pces') \<and>
           resp = course_response r"
  using course_create_or_modify_enrollments_Results[
          OF assms(1)[unfolded program_course_enrollments_view_def] assms(2)]
  by auto

lemma get_created_or_updated_response_status:
  "status_code (get_created_or_updated_response r success) =
     (if \<forall>v\<in>snd ` set r. v \<notin> set ProgramResponseStatuses_OK
        then HTTP_422_UNPROCESSABLE_ENTITY
      else if \<exists>v\<in>snd ` set r. v \<notin> set ProgramResponseStatuses_OK
        then HTTP_207_MULTI_STATUS
      else success)"
proof -
  let ?P = "\<lambda>v. v \<in> set ProgramResponseStatuses_OK"
  have z: "length (filter ?P (map snd r)) = 0 \<longleftrightarrow> (\<forall>v\<in>snd ` set r. \<not> ?P v)"
    using good_count_zero[of ?P "map snd r"] by simp
  have a: "length (filter ?P (map snd r)) = length r \<longleftrightarrow> (\<forall>v\<in>snd ` set r. ?P v)"
    using good_count_all[of ?P "map snd r"] by simp
  show ?thesis
    unfolding get_created_or_updated_response_def Let_def using z a
    by (auto simp: Response_def)
qed

lemma course_response_status:
  "status_code (course_response r) =
     (if \<forall>v\<in>snd ` set r. v \<notin> set ProgramCourseResponseStatuses_OK
        then HTTP_422_UNPROCESSABLE_ENTITY
      else if \<exists>v\<in>snd ` set r. v \<notin> set ProgramCourseResponseStatuses_OK
        then HTTP_207_MULTI_STATUS
      else HTTP_200_OK)"
proof -
  let ?P = "\<lambda>(_ :: pykey, v). v \<in> set ProgramCourseResponseStatuses_OK"
  have z: "length (filter ?P r) = 0 \<longleftrightarrow>
             (\<forall>v\<in>snd ` set r. v \<notin> set ProgramCourseResponseStatuses_OK)"
    using good_count_zero[of ?P r] by auto
  have a: "length (filter ?P r) = length r \<longleftrightarrow>
             (\<forall>v\<in>snd ` set r. v \<in> set ProgramCourseResponseStatuses_OK)"
    using good_count_all[of ?P r] by auto
  show ?thesis
    unfolding course_response_def Let_def using z a
    by (auto simp: Response_def)
qed

text \<open>
  Claim C1, amended. In a batch that the program view answers with a result map, a
  student key that occurs more than once is not processed at all: the result map has
  exactly one entry for that key, its value is \<open>duplicated\<close>, and the row of that key is
  as it was before the request (none is created, none is modified), for each of POST,
  PATCH and PUT.
\<close>

theorem repeated_student_key_duplicated:
  assumes "program_enrollments_view create_serializer modify_serializer get_user m
             (JList entries) db = (resp, db')"
    and "data resp = Results r"
    and "1 < length (filter (\<lambda>x. student_key_of x = Inr k) entries)"
  shows "map_of r k = Some DUPLICATED \<and> length (filter (\<lambda>p. fst p = k) r) = 1 \<and> db' k = db k"
proof -
  from program_enrollments_view_Results[OF assms(1,2)] obtain res enr where
    v: "validation_loop (case m of POST \<Rightarrow> create_serializer | PATCH \<Rightarrow> modify_serializer
            | PUT \<Rightarrow> create_serializer) entries {} [] [] = Inr (res, enr)" and
    a: "apply_loop (program_operation get_user m) (get_existing_program_enrollments db enr)
          enr res db = (r, db')"
    by blast
  from validation_loop_repeated[OF v assms(3)] have d: "map_of res k = Some DUPLICATED" .
  from apply_loop_skips_duplicated[OF a writes_own_row_program_operation d]
  have s: "map_of r k = Some DUPLICATED" "db' k = db k" by simp_all
  from validation_loop_distinct_results[OF v] have "distinct (map fst res)" by simp
  from apply_loop_distinct[OF a this] have "distinct (map fst r)" .
  from distinct_keys_one_entry[OF this map_of_Some_in_keys[OF s(1)]] s show ?thesis by simp
qed

theorem repeated_student_key_duplicated_witness:
  "data (fst (program_enrollments_view ProgramEnrollmentCreateRequestSerializer
       ProgramEnrollmentModifyRequestSerializer (\<lambda>k. Returns None) PUT
       (JList [learner ''001'' ''enrolled'', learner ''002'' ''pending'',
               learner ''003'' ''bogus'', learner ''001'' ''canceled''])
       [KStr ''001'' \<mapsto> enrolled_row]))
     = Results [(KStr ''003'', JStr ''invalid-status''), (KStr ''001'', JStr ''duplicated''),
                (KStr ''002'', JStr ''pending'')]
   \<and> 1 < length (filter (\<lambda>x. student_key_of x = Inr (KStr ''001''))
         [learner ''001'' ''enrolled'', learner ''002'' ''pending'',
          learner ''003'' ''bogus'', learner ''001'' ''canceled''])
   \<and> snd (program_enrollments_view ProgramEnrollmentCreateRequestSerializer
       ProgramEnrollmentModifyRequestSerializer (\<lambda>k. Returns None) PUT
       (JList [learner ''001'' ''enrolled'', learner ''002'' ''pending'',
               learner ''003'' ''bogus'', learner ''001'' ''canceled''])
       [KStr ''001'' \<mapsto> enrolled_row]) (KStr ''001'') = Some enrolled_row"
proof -
  let ?entries = "[learner ''001'' ''enrolled'', learner ''002'' ''pending'',
               learner ''003'' ''bogus'', learner ''001'' ''canceled'']"
  let ?db = "[KStr ''001'' \<mapsto> enrolled_row]"
  let ?out = "program_enrollments_view ProgramEnrollmentCreateRequestSerializer
       ProgramEnrollmentModifyRequestSerializer (\<lambda>k. Returns None) PUT (JList ?entries) ?db"
  let ?r = "[(KStr ''003'', JStr ''invalid-status''), (KStr ''001'', JStr ''duplicated''),
                (KStr ''002'', JStr ''pending'')]"
  have e: "?out = (fst ?out, snd ?out)" by simp
  have d: "data (fst ?out) = Results ?r" by (simp add: view_defs)
  have h: "1 < length (filter (\<lambda>x. student_key_of x = Inr (KStr ''001'')) ?entries)"
    by (simp add: student_key_of_def learner_def)
  from repeated_student_key_duplicated[OF e d h] d h show ?thesis by simp
qed

text \<open>
  Claim C1 as stated fails: the first occurrence of a repeated student key is not
  processed. A create request that lists the learner 001 twice, on an empty table,
  answers \<open>duplicated\<close> for 001 with status 422 and creates no row.
\<close>

theorem repeated_student_key_counterexample:
  "program_enrollments_view ProgramEnrollmentCreateRequestSerializer
     ProgramEnrollmentModifyRequestSerializer (\<lambda>k. Returns None) POST
     (JList [learner ''001'' ''enrolled'', learner ''001'' ''enrolled'']) Map.empty
   = (Response (Results [(KStr ''001'', JStr ''duplicated'')]) HTTP_422_UNPROCESSABLE_ENTITY,
      Map.empty)"
  by (simp add: view_defs)

text \<open>
  Claim C2, amended. When a batch view answers with a result map, the status is
  determined by the result map and the method: 422 when no result is in the success set
  (the empty map included), 207 when some result is in the success set and some is not,
  and otherwise, the map being non-empty with every result in the success set, the
  success code: 201 for POST and 200 for PATCH and PUT on the program view, and 200
  for every method on the course view. The result map has one entry per distinct student
  key of the request, and no other.
\<close>

theorem response_status_from_results:
  "(program_enrollments_view create_serializer modify_serializer get_user m
       (JList entries) db = (resp, db') \<and> data resp = Results r \<longrightarrow>
      status_code resp =
        (if \<forall>v\<in>snd ` set r. v \<notin> set ProgramResponseStatuses_OK
           then HTTP_422_UNPROCESSABLE_ENTITY
         else if \<exists>v\<in>snd ` set r. v \<notin> set ProgramResponseStatuses_OK
           then HTTP_207_MULTI_STATUS
         else (case m of POST \<Rightarrow> HTTP_201_CREATED | PATCH \<Rightarrow> HTTP_200_OK
                 | PUT \<Rightarrow> HTTP_200_OK))
      \<and> distinct (map fst r)
      \<and> fst ` set r = {k. \<exists>x\<in>set entries. student_key_of x = Inr k})
   \<and> (program_course_enrollments_view ser create_helper change_helper m
         (JList entries) db pces = (Inr course_resp, pces') \<and> data course_resp = Results cr \<longrightarrow>
      status_code course_resp =
        (if \<forall>v\<in>snd ` set cr. v \<notin> set ProgramCourseResponseStatuses_OK
           then HTTP_422_UNPROCESSABLE_ENTITY
         else if \<exists>v\<in>snd ` set cr. v \<notin> set ProgramCourseResponseStatuses_OK
           then HTTP_207_MULTI_STATUS
         else HTTP_200_OK)
      \<and> distinct (map fst cr)
      \<and> fst ` set cr = {k. \<exists>x\<in>set entries. student_key_of x = Inr k})"
proof (intro conjI impI; elim conjE)
  assume p: "program_enrollments_view create_serializer modify_serializer get_user m
       (JList entries) db = (resp, db')" "data resp = Results r"
  from program_enrollments_view_Results[OF p] obtain res enr where
    v: "validation_loop (case m of POST \<Rightarrow> create_serializer | PATCH \<Rightarrow> modify_serializer
            | PUT \<Rightarrow> create_serializer) entries {} [] [] = Inr (res, enr)" and
    a: "apply_loop (program_operation get_user m) (get_existing_program_enrollments db enr)
          enr res db = (r, db')" and
    g: "resp = get_created_or_updated_response r (program_success_status m)"
    by blast
  have "program_success_status m =
          (case m of POST \<Rightarrow> HTTP_201_CREATED | PATCH \<Rightarrow> HTTP_200_OK | PUT \<Rightarrow> HTTP_200_OK)"
    by (simp add: program_success_status_def)
  with g show "status_code resp =
        (if \<forall>v\<in>snd ` set r. v \<notin> set ProgramResponseStatuses_OK
           then HTTP_422_UNPROCESSABLE_ENTITY
         else if \<exists>v\<in>snd ` set r. v \<notin> set ProgramResponseStatuses_OK
           then HTTP_207_MULTI_STATUS
         else (case m of POST \<Rightarrow> HTTP_201_CREATED | PATCH \<Rightarrow> HTTP_200_OK
                 | PUT \<Rightarrow> HTTP_200_OK))"
    by (simp only: get_created_or_updated_response_status)
  from validation_loop_distinct_results[OF v] have "distinct (map fst res)" by simp
  from apply_loop_distinct[OF a this] show "distinct (map fst r)" .
  from validation_loop_keys[OF v] apply_loop_keys[OF a]
  show "fst ` set r = {k. \<exists>x\<in>set entries. student_key_of x = Inr k}" by simp
next
  assume p: "program_course_enrollments_view ser create_helper change_helper m
         (JList entries) db pces = (Inr course_resp, pces')" "data course_resp = Results cr"
  from program_course_enrollments_view_Results[OF p] obtain res enr where
    v: "validation_loop ser entries {} [] [] = Inr (res, enr)" and
    a: "course_apply_loop (course_operation_of create_helper change_helper m)
          (get_existing_program_enrollments db enr) enr res pces = (Inr cr, pces')" and
    g: "course_resp = course_response cr"
    by blast
  from g show "status_code course_resp =
        (if \<forall>v\<in>snd ` set cr. v \<notin> set ProgramCourseResponseStatuses_OK
           then HTTP_422_UNPROCESSABLE_ENTITY
         else if \<exists>v\<in>snd ` set cr. v \<notin> set ProgramCourseResponseStatuses_OK
           then HTTP_207_MULTI_STATUS
         else HTTP_200_OK)"
    by (simp only: course_response_status)
  from validation_loop_distinct_results[OF v] have "distinct (map fst res)" by simp
  from course_apply_loop_distinct[OF a this] show "distinct (map fst cr)" .
  from validation_loop_keys[OF v] course_apply_loop_keys[OF a]
  show "fst ` set cr = {k. \<exists>x\<in>set entries. student_key_of x = Inr k}" by simp
qed

theorem response_status_from_results_witness:
  "data (fst (program_enrollments_view ProgramEnrollmentCreateRequestSerializer
       ProgramEnrollmentModifyRequestSerializer (\<lambda>k. Returns None) POST
       (JList [learner ''001'' ''enrolled'', learner ''002'' ''pending'',
               learner ''003'' ''bogus'', learner ''004'' ''unknown'']) Map.empty))
     = Results [(KStr ''003'', JStr ''invalid-status''), (KStr ''004'', JStr ''invalid-status''),
                (KStr ''001'', JStr ''enrolled''), (KStr ''002'', JStr ''pending'')]
   \<and> status_code (fst (program_enrollments_view ProgramEnrollmentCreateRequestSerializer
       ProgramEnrollmentModifyRequestSerializer (\<lambda>k. Returns None) POST
       (JList [learner ''001'' ''enrolled'', learner ''002'' ''pending'',
               learner ''003'' ''bogus'', learner ''004'' ''unknown'']) Map.empty))
     = HTTP_207_MULTI_STATUS
   \<and> fst ` set [(KStr ''003'', JStr ''invalid-status''), (KStr ''004'', JStr ''invalid-status''),
                (KStr ''001'', JStr ''enrolled''), (KStr ''002'', JStr ''pending'')]
     = {k. \<exists>x\<in>set [learner ''001'' ''enrolled'', learner ''002'' ''pending'',
               learner ''003'' ''bogus'', learner ''004'' ''unknown'']. student_key_of x = Inr k}
   \<and> fst (program_course_enrollments_view ProgramCourseEnrollmentRequestSerializer
          sample_create sample_change PUT
          (JList [learner ''001'' ''active'', learner ''002'' ''inactive''])
          [KStr ''001'' \<mapsto> enrolled_row, KStr ''002'' \<mapsto> enrolled_row] Map.empty)
     = Inr (Response (Results [(KStr ''001'', JStr ''active''), (KStr ''002'', JStr ''inactive'')])
              HTTP_200_OK)
   \<and> fst ` set [(KStr ''001'', JStr ''active''), (KStr ''002'', JStr ''inactive'')]
     = {k. \<exists>x\<in>set [learner ''001'' ''active'', learner ''002'' ''inactive''].
             student_key_of x = Inr k}"
proof -
  let ?entries = "[learner ''001'' ''enrolled'', learner ''002'' ''pending'',
               learner ''003'' ''bogus'', learner ''004'' ''unknown'']"
  let ?out = "program_enrollments_view ProgramEnrollmentCreateRequestSerializer
       ProgramEnrollmentModifyRequestSerializer (\<lambda>k. Returns None) POST (JList ?entries)
       Map.empty"
  let ?r = "[(KStr ''003'', JStr ''invalid-status''), (KStr ''004'', JStr ''invalid-status''),
            (KStr ''001'', JStr ''enrolled''), (KStr ''002'', JStr ''pending'')]"
  let ?centries = "[learner ''001'' ''active'', learner ''002'' ''inactive'']"
  let ?db = "[KStr ''001'' \<mapsto> enrolled_row, KStr ''002'' \<mapsto> enrolled_row]"
  let ?cout = "program_course_enrollments_view ProgramCourseEnrollmentRequestSerializer
          sample_create sample_change PUT (JList ?centries) ?db Map.empty"
  let ?cr = "[(KStr ''001'', JStr ''active''), (KStr ''002'', JStr ''inactive'')]"
  let ?cresp = "Response (Results ?cr) HTTP_200_OK"
  have e: "?out = (fst ?out, snd ?out)" by simp
  have d: "data (fst ?out) = Results ?r" by (simp add: view_defs)
  have ce: "fst ?cout = Inr ?cresp" by (simp add: view_defs)
  then have ce': "?cout = (Inr ?cresp, snd ?cout)" by (metis prod.collapse)
  have cd: "data ?cresp = Results ?cr" by (simp add: Response_def)
  note t = response_status_from_results[where m = POST and entries = ?entries
      and db = Map.empty and resp = "fst ?out" and db' = "snd ?out" and r = ?r
      and create_serializer = ProgramEnrollmentCreateRequestSerializer
      and modify_serializer = ProgramEnrollmentModifyRequestSerializer
      and get_user = "\<lambda>k. Returns None"]
  note u = response_status_from_results[where m = PUT and entries = ?centries
      and db = ?db and ser = ProgramCourseEnrollmentRequestSerializer
      and create_helper = sample_create and change_helper = sample_change
      and pces = Map.empty and course_resp = ?cresp and pces' = "snd ?cout" and cr = ?cr]
  from t e d have p: "status_code (fst ?out) = HTTP_207_MULTI_STATUS"
    "fst ` set ?r = {k. \<exists>x\<in>set ?entries. student_key_of x = Inr k}"
    by (simp_all add: ProgramResponseStatuses_OK_def)
  from u ce' cd have c: "fst ` set ?cr = {k. \<exists>x\<in>set ?centries. student_key_of x = Inr k}"
    by blast
  from d p ce c show ?thesis by blast
qed

text \<open>
  Claim C2 as stated fails on the course view: a course-level create whose only record
  succeeds is answered 200, not 201.
\<close>

theorem response_status_counterexample:
  "fst (program_course_enrollments_view ProgramCourseEnrollmentRequestSerializer
          sample_create sample_change POST (JList [learner ''001'' ''active''])
          [KStr ''001'' \<mapsto> enrolled_row] Map.empty)
     = Inr (Response (Results [(KStr ''001'', JStr ''active'')]) HTTP_200_OK)
   \<and> JStr ''active'' \<in> set ProgramCourseResponseStatuses_OK"
  by (simp add: view_defs)

section \<open>Existing and missing program enrollments\<close>

lemma apply_loop_keeps_row:
  "apply_loop operation existing enr res db = (res', db') \<Longrightarrow> writes_own_row operation \<Longrightarrow>
     (\<And>d db1. snd (operation (k, d) (existing k) db1) k = db1 k) \<Longrightarrow>
     db' k = db k"
proof (induction enr arbitrary: res db)
  case Nil
  then show ?case by simp
next
  case (Cons e enr)
  show ?case
  proof (cases "map_of res (fst e) = Some DUPLICATED")
    case True
    then have "apply_loop operation existing enr res db = (res', db')"
      using Cons.prems(1) by simp
    from Cons.IH[OF this Cons.prems(2,3)] show ?thesis .
  next
    case False
    obtain st db1 where op: "operation e (existing (fst e)) db = (st, db1)"
      by (cases "operation e (existing (fst e)) db")
    with False Cons.prems(1)
    have l: "apply_loop operation existing enr (AList.update (fst e) st res) db1 = (res', db')"
      by simp
    have "db1 k = db k"
    proof (cases "fst e = k")
      case True
      then have "e = (k, snd e)" by (cases e) simp
      with Cons.prems(3)[of "snd e" db] op True show ?thesis by (metis snd_conv)
    next
      case False
      with Cons.prems(2) op show ?thesis unfolding writes_own_row_def by (metis snd_conv)
    qed
    with Cons.IH[OF l Cons.prems(2,3)] show ?thesis by simp
  qed
qed

lemma program_enrollments_view_table:
  assumes "program_enrollments_view cs ms g m body db = (resp, db')"
  shows "db' = db \<or>
         (\<exists>res enr r. apply_loop (program_operation g m)
            (get_existing_program_enrollments db enr) enr res db = (r, db'))"
  using assms
  by (auto simp: program_enrollments_view_def create_or_modify_enrollments_def
           split: json.splits if_splits sum.splits prod.splits)

lemma program_post_keeps_existing_rows:
  assumes "program_enrollments_view cs ms g POST body db = (resp, db')" and "db k \<noteq> None"
  shows "db' k = db k"
proof -
  from program_enrollments_view_table[OF assms(1)] show ?thesis
  proof
    assume "db' = db"
    then show ?thesis by simp
  next
    assume "\<exists>res enr r. apply_loop (program_operation g POST)
            (get_existing_program_enrollments db enr) enr res db = (r, db')"
    then obtain res enr r where a: "apply_loop (program_operation g POST)
            (get_existing_program_enrollments db enr) enr res db = (r, db')" by blast
    show ?thesis
    proof (cases "k \<in> fst ` set enr")
      case True
      then have "get_existing_program_enrollments db enr k \<noteq> None"
        using assms(2) by (simp add: get_existing_program_enrollments_key)
      then have "snd (program_operation g POST (k, d)
                   (get_existing_program_enrollments db enr k) db1) k = db1 k" for d db1
        by (auto simp: program_operation_def create_program_enrollment_def)
      from apply_loop_keeps_row[OF a writes_own_row_program_operation this] show ?thesis .
    next
      case False
      from apply_loop_absent[OF a writes_own_row_program_operation False] show ?thesis by simp
    qed
  qed
qed

lemma program_patch_creates_no_row:
  assumes "program_enrollments_view cs ms g PATCH body db = (resp, db')" and "db k = None"
  shows "db' k = None"
proof -
  from program_enrollments_view_table[OF assms(1)] show ?thesis
  proof
    assume "db' = db"
    with assms(2) show ?thesis by simp
  next
    assume "\<exists>res enr r. apply_loop (program_operation g PATCH)
            (get_existing_program_enrollments db enr) enr res db = (r, db')"
    then obtain res enr r where a: "apply_loop (program_operation g PATCH)
            (get_existing_program_enrollments db enr) enr res db = (r, db')" by blast
    have "get_existing_program_enrollments db enr k = None"
      using assms(2) by (rule get_existing_program_enrollments_None)
    then have "snd (program_operation g PATCH (k, d)
                   (get_existing_program_enrollments db enr k) db1) k = db1 k" for d db1
      by (simp add: program_operation_def modify_program_enrollment_def)
    from apply_loop_keeps_row[OF a writes_own_row_program_operation this] assms(2)
    show ?thesis by simp
  qed
qed

lemma program_enrollments_view_processed:
  assumes "program_enrollments_view cs ms g m (JList entries) db = (resp, db')"
    and "data resp = Results r"
    and "length (filter (\<lambda>x. student_key_of x = Inr k) entries) = 1"
    and "\<forall>x\<in>set entries. student_key_of x = Inr k \<longrightarrow>
           (case m of POST \<Rightarrow> cs | PATCH \<Rightarrow> ms | PUT \<Rightarrow> cs) x = Is_valid"
  shows "\<exists>d db1. map_of r k = Some (fst (program_operation g m (k, d) (db k) db1))"
proof -
  from program_enrollments_view_Results[OF assms(1,2)] obtain res enr where
    v: "validation_loop (case m of POST \<Rightarrow> cs | PATCH \<Rightarrow> ms | PUT \<Rightarrow> cs)
          entries {} [] [] = Inr (res, enr)" and
    a: "apply_loop (program_operation g m) (get_existing_program_enrollments db enr)
          enr res db = (r, db')"
    by blast
  from validation_loop_once_valid[OF v _ assms(3,4)] obtain d where
    n: "map_of res k = None" and mem: "(k, d) \<in> set enr" by auto
  from validation_loop_distinct_enrollments[OF v] have dist: "distinct (map fst enr)" by simp
  from n have nd: "map_of res k \<noteq> Some DUPLICATED" by simp
  from mem have "k \<in> fst ` set enr" by (metis fst_conv image_eqI)
  then have ex: "get_existing_program_enrollments db enr k = db k"
    by (rule get_existing_program_enrollments_key)
  from apply_loop_processed[OF a writes_own_row_program_operation dist mem nd] ex
  show ?thesis by auto
qed

text \<open>
  Claim C4, amended. In a POST batch, the row of a student key that has an enrollment is
  left unchanged, whatever the batch is; the result for that key is \<open>conflict\<close> when the
  view answers with a result map and the key occurs once in the batch, in a record that
  the create serializer accepts. In a PATCH batch, no row is created for a student key
  that has no enrollment, whatever the batch is; the result for that key is
  \<open>not-in-program\<close> when the view answers with a result map and the key occurs once in
  the batch, in a record that the modify serializer accepts.
\<close>

theorem conflict_and_not_in_program:
  assumes "program_enrollments_view create_serializer modify_serializer get_user m
             (JList entries) db = (resp, db')"
  shows "(m = POST \<and> db k \<noteq> None \<longrightarrow>
            db' k = db k \<and>
            (data resp = Results r \<and>
             length (filter (\<lambda>x. student_key_of x = Inr k) entries) = 1 \<and>
             (\<forall>x\<in>set entries. student_key_of x = Inr k \<longrightarrow> create_serializer x = Is_valid)
             \<longrightarrow> map_of r k = Some CONFLICT))
       \<and> (m = PATCH \<and> db k = None \<longrightarrow>
            db' k = None \<and>
            (data resp = Results r \<and>
             length (filter (\<lambda>x. student_key_of x = Inr k) entries) = 1 \<and>
             (\<forall>x\<in>set entries. student_key_of x = Inr k \<longrightarrow> modify_serializer x = Is_valid)
             \<longrightarrow> map_of r k = Some NOT_IN_PROGRAM))"
proof (intro conjI impI; elim conjE)
  assume m: "m = POST" and k: "db k \<noteq> None"
  from program_post_keeps_existing_rows[OF assms[unfolded m] k] show "db' k = db k" .
next
  assume m: "m = POST" and k: "db k \<noteq> None" and r: "data resp = Results r"
    and o: "length (filter (\<lambda>x. student_key_of x = Inr k) entries) = 1"
    and v: "\<forall>x\<in>set entries. student_key_of x = Inr k \<longrightarrow> create_serializer x = Is_valid"
  from v m have "\<forall>x\<in>set entries. student_key_of x = Inr k \<longrightarrow>
           (case m of POST \<Rightarrow> create_serializer | PATCH \<Rightarrow> modify_serializer
              | PUT \<Rightarrow> create_serializer) x = Is_valid" by simp
  from program_enrollments_view_processed[OF assms r o this] obtain d db1 where
    "map_of r k = Some (fst (program_operation get_user m (k, d) (db k) db1))" by blast
  with m k show "map_of r k = Some CONFLICT"
    by (auto simp: program_operation_def create_program_enrollment_def)
next
  assume m: "m = PATCH" and k: "db k = None"
  from program_patch_creates_no_row[OF assms[unfolded m] k] show "db' k = None" .
next
  assume m: "m = PATCH" and k: "db k = None" and r: "data resp = Results r"
    and o: "length (filter (\<lambda>x. student_key_of x = Inr k) entries) = 1"
    and v: "\<forall>x\<in>set entries. student_key_of x = Inr k \<longrightarrow> modify_serializer x = Is_valid"
  from v m have "\<forall>x\<in>set entries. student_key_of x = Inr k \<longrightarrow>
           (case m of POST \<Rightarrow> create_serializer | PATCH \<Rightarrow> modify_serializer
              | PUT \<Rightarrow> create_serializer) x = Is_valid" by simp
  from program_enrollments_view_processed[OF assms r o this] obtain d db1 where
    "map_of r k = Some (fst (program_operation get_user m (k, d) (db k) db1))" by blast
  with m k show "map_of r k = Some NOT_IN_PROGRAM"
    by (simp add: program_operation_def modify_program_enrollment_def)
qed

theorem conflict_and_not_in_program_witness:
  "data (fst (program_enrollments_view ProgramEnrollmentCreateRequestSerializer
          ProgramEnrollmentModifyRequestSerializer (\<lambda>k. Returns None) POST
          (JList [learner ''001'' ''pending'', learner ''002'' ''enrolled''])
          [KStr ''001'' \<mapsto> enrolled_row]))
     = Results [(KStr ''001'', JStr ''conflict''), (KStr ''002'', JStr ''enrolled'')]
   \<and> snd (program_enrollments_view ProgramEnrollmentCreateRequestSerializer
          ProgramEnrollmentModifyRequestSerializer (\<lambda>k. Returns None) POST
          (JList [learner ''001'' ''pending'', learner ''002'' ''enrolled''])
          [KStr ''001'' \<mapsto> enrolled_row]) (KStr ''001'') = Some enrolled_row
   \<and> data (fst (program_enrollments_view ProgramEnrollmentCreateRequestSerializer
          ProgramEnrollmentModifyRequestSerializer (\<lambda>k. Returns None) PATCH
          (JList [learner ''001'' ''pending'', learner ''002'' ''enrolled''])
          [KStr ''001'' \<mapsto> enrolled_row]))
     = Results [(KStr ''001'', JStr ''pending''), (KStr ''002'', JStr ''not-in-program'')]
   \<and> snd (program_enrollments_view ProgramEnrollmentCreateRequestSerializer
          ProgramEnrollmentModifyRequestSerializer (\<lambda>k. Returns None) PATCH
          (JList [learner ''001'' ''pending'', learner ''002'' ''enrolled''])
          [KStr ''001'' \<mapsto> enrolled_row]) (KStr ''002'') = None"
proof -
  let ?entries = "[learner ''001'' ''pending'', learner ''002'' ''enrolled'']"
  let ?db = "[KStr ''001'' \<mapsto> enrolled_row]"
  let ?post = "program_enrollments_view ProgramEnrollmentCreateRequestSerializer
          ProgramEnrollmentModifyRequestSerializer (\<lambda>k. Returns None) POST (JList ?entries) ?db"
  let ?patch = "program_enrollments_view ProgramEnrollmentCreateRequestSerializer
          ProgramEnrollmentModifyRequestSerializer (\<lambda>k. Returns None) PATCH (JList ?entries) ?db"
  let ?r1 = "[(KStr ''001'', JStr ''conflict''), (KStr ''002'', JStr ''enrolled'')]"
  let ?r2 = "[(KStr ''001'', JStr ''pending''), (KStr ''002'', JStr ''not-in-program'')]"
  have e1: "?post = (fst ?post, snd ?post)" and e2: "?patch = (fst ?patch, snd ?patch)"
    by simp_all
  have d1: "data (fst ?post) = Results ?r1" by (simp add: view_defs)
  have d2: "data (fst ?patch) = Results ?r2" by (simp add: view_defs)
  have o1: "length (filter (\<lambda>x. student_key_of x = Inr (KStr ''001'')) ?entries) = 1"
    and o2: "length (filter (\<lambda>x. student_key_of x = Inr (KStr ''002'')) ?entries) = 1"
    by (simp_all add: student_key_of_def learner_def)
  have v1: "\<forall>x\<in>set ?entries. student_key_of x = Inr (KStr ''001'') \<longrightarrow>
              ProgramEnrollmentCreateRequestSerializer x = Is_valid"
    and v2: "\<forall>x\<in>set ?entries. student_key_of x = Inr (KStr ''002'') \<longrightarrow>
              ProgramEnrollmentModifyRequestSerializer x = Is_valid"
    by (simp_all add: view_defs)
  have k1: "?db (KStr ''001'') \<noteq> None" and k2: "?db (KStr ''002'') = None" by simp_all
  from conflict_and_not_in_program[OF e1, of "KStr ''001''" ?r1] d1 o1 v1 k1
  have p1: "snd ?post (KStr ''001'') = ?db (KStr ''001'') \<and>
            map_of ?r1 (KStr ''001'') = Some CONFLICT"
    by blast
  from conflict_and_not_in_program[OF e2, of "KStr ''002''" ?r2] d2 o2 v2 k2
  have p2: "snd ?patch (KStr ''002'') = None \<and>
            map_of ?r2 (KStr ''002'') = Some NOT_IN_PROGRAM"
    by blast
  from p1 p2 d1 d2 show ?thesis by simp
qed

text \<open>
  Claim C4 as stated fails for a record that the validation rejects. In a POST batch
  the result of an enrolled learner is \<open>invalid-status\<close> when the status of the record
  is invalid, and \<open>duplicated\<close> when the batch lists the learner twice; in a PATCH batch
  the result of a learner without enrollment is \<open>invalid-status\<close> when the status of the
  record is invalid.
\<close>

theorem conflict_and_not_in_program_counterexample:
  "fst (program_enrollments_view ProgramEnrollmentCreateRequestSerializer
          ProgramEnrollmentModifyRequestSerializer (\<lambda>k. Returns None) POST
          (JList [learner ''001'' ''bogus'']) [KStr ''001'' \<mapsto> enrolled_row])
     = Response (Results [(KStr ''001'', JStr ''invalid-status'')]) HTTP_422_UNPROCESSABLE_ENTITY
   \<and> fst (program_enrollments_view ProgramEnrollmentCreateRequestSerializer
          ProgramEnrollmentModifyRequestSerializer (\<lambda>k. Returns None) POST
          (JList [learner ''001'' ''enrolled'', learner ''001'' ''enrolled''])
          [KStr ''001'' \<mapsto> enrolled_row])
     = Response (Results [(KStr ''001'', JStr ''duplicated'')]) HTTP_422_UNPROCESSABLE_ENTITY
   \<and> fst (program_enrollments_view ProgramEnrollmentCreateRequestSerializer
          ProgramEnrollmentModifyRequestSerializer (\<lambda>k. Returns None) PATCH
          (JList [learner ''001'' ''bogus'']) Map.empty)
     = Response (Results [(KStr ''001'', JStr ''invalid-status'')]) HTTP_422_UNPROCESSABLE_ENTITY"
  by (simp add: view_defs)

section \<open>Course enrollments and their program enrollment\<close>

lemma program_course_enrollments_view_table:
  assumes "program_course_enrollments_view ser cr ch m body db pces = (out, pces')"
  shows "pces' = pces \<or>
         (\<exists>res enr out'. course_apply_loop (course_operation_of cr ch m)
            (get_existing_program_enrollments db enr) enr res pces = (out', pces'))"
  using assms
  by (auto simp: program_course_enrollments_view_def course_create_or_modify_enrollments_def
           split: json.splits if_splits sum.splits prod.splits)

lemma program_course_enrollments_view_enrolled_only:
  assumes "program_course_enrollments_view ser cr ch m body db pces = (out, pces')"
    and "db k = None"
  shows "pces' k = pces k"
proof -
  from program_course_enrollments_view_table[OF assms(1)] show ?thesis
  proof
    assume "pces' = pces"
    then show ?thesis by simp
  next
    assume "\<exists>res enr out'. course_apply_loop (course_operation_of cr ch m)
            (get_existing_program_enrollments db enr) enr res pces = (out', pces')"
    then obtain res enr out' where a: "course_apply_loop (course_operation_of cr ch m)
            (get_existing_program_enrollments db enr) enr res pces = (out', pces')" by blast
    have "get_existing_program_enrollments db enr k = None"
      using assms(2) by (rule get_existing_program_enrollments_None)
    from course_apply_loop_writes_enrolled_only[OF a this] show ?thesis .
  qed
qed

text \<open>
  Claim C8, amended. Whatever a course-level POST, PATCH or PUT request is and however it
  ends, the course enrollment of a learner without program enrollment is as it was
  before, so that a table in which every course enrollment has its program enrollment
  stays so. When the view answers with a result map, the result of a student key without
  program enrollment is \<open>not-in-program\<close> if the key occurs once in the batch, in a
  record that the serializer accepts.
\<close>

theorem course_enrollment_requires_program_enrollment:
  assumes "program_course_enrollments_view ser create_helper change_helper m body db pces
             = (out, pces')"
  shows "(\<forall>k. db k = None \<longrightarrow> pces' k = pces k)
       \<and> (dom pces \<subseteq> dom db \<longrightarrow> dom pces' \<subseteq> dom db)
       \<and> (\<forall>entries resp r k.
            body = JList entries \<and> out = Inr resp \<and> data resp = Results r \<and>
            length (filter (\<lambda>x. student_key_of x = Inr k) entries) = 1 \<and>
            (\<forall>x\<in>set entries. student_key_of x = Inr k \<longrightarrow> ser x = Is_valid) \<and>
            db k = None
            \<longrightarrow> map_of r k = Some NOT_IN_PROGRAM)"
proof (intro conjI allI impI)
  show "pces' k = pces k" if "db k = None" for k
    using program_course_enrollments_view_enrolled_only[OF assms that] .
  then show "dom pces' \<subseteq> dom db" if "dom pces \<subseteq> dom db"
    using that by (metis domIff subsetD subsetI)
  show "map_of r k = Some NOT_IN_PROGRAM"
    if h: "body = JList entries \<and> out = Inr resp \<and> data resp = Results r \<and>
            length (filter (\<lambda>x. student_key_of x = Inr k) entries) = 1 \<and>
            (\<forall>x\<in>set entries. student_key_of x = Inr k \<longrightarrow> ser x = Is_valid) \<and>
            db k = None" for entries resp r k
  proof -
    from h assms have p: "program_course_enrollments_view ser create_helper change_helper m
        (JList entries) db pces = (Inr resp, pces')" by simp
    from h have r: "data resp = Results r" by simp
    from program_course_enrollments_view_Results[OF p r] obtain res enr where
      v: "validation_loop ser entries {} [] [] = Inr (res, enr)" and
      a: "course_apply_loop (course_operation_of create_helper change_helper m)
            (get_existing_program_enrollments db enr) enr res pces = (Inr r, pces')"
      by blast
    from h have o: "length (filter (\<lambda>x. student_key_of x = Inr k) entries) = 1"
      and val: "\<forall>x\<in>set entries. student_key_of x = Inr k \<longrightarrow> ser x = Is_valid"
      and k: "db k = None" by simp_all
    from validation_loop_once_valid[OF v _ o val] obtain d where
      n: "map_of res k = None" and mem: "(k, d) \<in> set enr" by auto
    from validation_loop_distinct_enrollments[OF v] have dist: "distinct (map fst enr)" by simp
    from n have nd: "map_of res k \<noteq> Some DUPLICATED" by simp
    from mem have kin: "k \<in> fst ` set enr" by (metis fst_conv image_eqI)
    have ex: "get_existing_program_enrollments db enr k = None"
      using k by (rule get_existing_program_enrollments_None)
    from course_apply_loop_not_in_program[OF a dist kin nd ex] show ?thesis .
  qed
qed

theorem course_enrollment_requires_program_enrollment_witness:
  "fst (program_course_enrollments_view ProgramCourseEnrollmentRequestSerializer
          sample_create sample_change PUT
          (JList [learner ''001'' ''active'', learner ''002'' ''active''])
          [KStr ''001'' \<mapsto> enrolled_row] Map.empty)
     = Inr (Response (Results [(KStr ''001'', JStr ''active''),
                               (KStr ''002'', JStr ''not-in-program'')])
              HTTP_207_MULTI_STATUS)
   \<and> snd (program_course_enrollments_view ProgramCourseEnrollmentRequestSerializer
          sample_create sample_change PUT
          (JList [learner ''001'' ''active'', learner ''002'' ''active''])
          [KStr ''001'' \<mapsto> enrolled_row] Map.empty) (KStr ''002'') = None
   \<and> dom (snd (program_course_enrollments_view ProgramCourseEnrollmentRequestSerializer
          sample_create sample_change PUT
          (JList [learner ''001'' ''active'', learner ''002'' ''active''])
          [KStr ''001'' \<mapsto> enrolled_row] Map.empty)) \<subseteq> dom [KStr ''001'' \<mapsto> enrolled_row]
   \<and> map_of [(KStr ''001'', JStr ''active''), (KStr ''002'', JStr ''not-in-program'')]
         (KStr ''002'') = Some NOT_IN_PROGRAM"
proof -
  let ?entries = "[learner ''001'' ''active'', learner ''002'' ''active'']"
  let ?db = "[KStr ''001'' \<mapsto> enrolled_row]"
  let ?out = "program_course_enrollments_view ProgramCourseEnrollmentRequestSerializer
          sample_create sample_change PUT (JList ?entries) ?db Map.empty"
  let ?r = "[(KStr ''001'', JStr ''active''), (KStr ''002'', JStr ''not-in-program'')]"
  let ?resp = "Response (Results ?r) HTTP_207_MULTI_STATUS"
  have e: "?out = (fst ?out, snd ?out)" by simp
  have f: "fst ?out = Inr ?resp" by (simp add: view_defs)
  have d: "data ?resp = Results ?r" by (simp add: Response_def)
  have o: "length (filter (\<lambda>x. student_key_of x = Inr (KStr ''002'')) ?entries) = 1"
    by (simp add: student_key_of_def learner_def)
  have v: "\<forall>x\<in>set ?entries. student_key_of x = Inr (KStr ''002'') \<longrightarrow>
              ProgramCourseEnrollmentRequestSerializer x = Is_valid"
    by (simp add: view_defs)
  have k: "?db (KStr ''002'') = None" by simp
  have s: "dom (Map.empty :: program_course_enrollments) \<subseteq> dom ?db" by simp
  note t = course_enrollment_requires_program_enrollment[OF e]
  from t k have p1: "snd ?out (KStr ''002'') = None" by simp
  from t s have p2: "dom (snd ?out) \<subseteq> dom ?db" by blast
  from t f d o v k have p3: "map_of ?r (KStr ''002'') = Some NOT_IN_PROGRAM" by blast
  from f p1 p2 p3 show ?thesis by simp
qed

text \<open>
  Claim C8 as stated fails for a record that the validation rejects: a course-level
  create for a learner without program enrollment is answered \<open>invalid-status\<close> when
  the status of the record is invalid, and \<open>duplicated\<close> when the batch lists the
  learner twice, not \<open>not-in-program\<close>.
\<close>

theorem course_enrollment_counterexample:
  "fst (program_course_enrollments_view ProgramCourseEnrollmentRequestSerializer
          sample_create sample_change POST (JList [learner ''001'' ''bogus''])
          Map.empty Map.empty)
     = Inr (Response (Results [(KStr ''001'', JStr ''invalid-status'')])
              HTTP_422_UNPROCESSABLE_ENTITY)
   \<and> fst (program_course_enrollments_view ProgramCourseEnrollmentRequestSerializer
          sample_create sample_change POST
          (JList [learner ''001'' ''active'', learner ''001'' ''active''])
          Map.empty Map.empty)
     = Inr (Response (Results [(KStr ''001'', JStr ''duplicated'')])
              HTTP_422_UNPROCESSABLE_ENTITY)"
  by (simp add: view_defs)

end
